theory Spec2Isabelle
  imports Main "HOL-Library.Sublist"
begin

section \<open>Data model\<close>

text \<open>
  The reservation and capacity core of the event management server:
  the Sequelize models \<open>Event\<close> and \<open>Reservation\<close>, the reservation controller
  (\<open>createReservation\<close>, \<open>cancelReservation\<close>), the capacity part of the event
  controller (\<open>updateEvent\<close>) and the Redis cache helpers they call.

  JavaScript numbers that hold ids, capacities and timestamps are modelled as \<open>int\<close>
  (a \<open>Date\<close> is its millisecond timestamp). The columns \<open>createdAt\<close>, \<open>updatedAt\<close>
  and \<open>reservationDate\<close> are left out: no operation below reads them.
  The field \<open>id\<close> of each model is renamed (\<open>event_id\<close>, \<open>reservation_id\<close>,
  \<open>user_id\<close>), since \<open>id\<close> is the identity function of HOL.
\<close>

text \<open>
  The columns declared \<open>DataTypes.INTEGER\<close> are 32-bit signed integers of the
  database: a query or a write with a number outside this range is refused there, and
  the handler's \<open>catch\<close> answers 500.
\<close>

definition int4 :: "int \<Rightarrow> bool" where
  "int4 x \<longleftrightarrow> - 2147483648 \<le> x \<and> x \<le> 2147483647"

datatype Role = admin | user

datatype ReservationStatus = CONFIRMED | CANCELED

text \<open>
  \<open>req.user\<close> of an \<open>AuthenticatedRequest\<close>: what the verified token says, whether
  or not the table \<open>users\<close> still holds a row with that id, and with the role the
  token was issued for. The same record, its other columns left out, stands for a row
  of \<open>users\<close>.
\<close>

record User =
  user_id :: int
  email :: string
  role :: Role

record Event =
  event_id :: int
  name :: string
  description :: "string option"
  eventDate :: int
  location :: "string option"
  onlineLink :: "string option"
  maxCapacity :: int
  availableSpots :: int
  creatorId :: int

record Reservation =
  reservation_id :: int
  eventId :: int
  userId :: int
  status :: ReservationStatus

text \<open>
  The relational store: the rows of the three tables, in insertion order, and the
  auto-increment sequence of \<open>reservations.id\<close>.
\<close>

record database =
  users :: "User list"
  events :: "Event list"
  reservations :: "Reservation list"
  reservations_seq :: int

subsection \<open>Instance methods of the Event model\<close>

definition hasAvailableSpots :: "Event \<Rightarrow> bool" where
  "hasAvailableSpots e = (0 < availableSpots e)"

definition reserveSpot :: "Event \<Rightarrow> bool \<times> Event" where
  "reserveSpot e =
     (if 0 < availableSpots e then (True, e\<lparr>availableSpots := availableSpots e - 1\<rparr>)
      else (False, e))"

definition cancelSpot :: "Event \<Rightarrow> Event" where
  "cancelSpot e =
     (if availableSpots e < maxCapacity e then e\<lparr>availableSpots := availableSpots e + 1\<rparr>
      else e)"

subsection \<open>Queries and row updates\<close>

definition Event_findByPk :: "int \<Rightarrow> database \<Rightarrow> Event option" where
  "Event_findByPk k d = find (\<lambda>e. event_id e = k) (events d)"

definition Reservation_findByPk :: "int \<Rightarrow> database \<Rightarrow> Reservation option" where
  "Reservation_findByPk k d = find (\<lambda>r. reservation_id r = k) (reservations d)"

text \<open>\<open>Reservation.findOne({ where: { eventId, userId, status } })\<close>\<close>

definition Reservation_findOne :: "int \<Rightarrow> int \<Rightarrow> ReservationStatus \<Rightarrow> database \<Rightarrow> Reservation option" where
  "Reservation_findOne e u s d =
     find (\<lambda>r. eventId r = e \<and> userId r = u \<and> status r = s) (reservations d)"

text \<open>
  \<open>Reservation.create\<close>: the new row takes the next value of the sequence. The
  insert throws (\<open>None\<close>) when the sequence has left the INTEGER range, and, after
  the sequence value is spent, when a constraint of \<open>Reservation.init\<close> refuses the
  row: the two foreign keys (no row of \<open>users\<close>, no row of \<open>events\<close>) and the
  unique index on confirmed (eventId, userId). A sequence value that was handed out is
  not given back when the transaction is rolled back.
\<close>

definition Reservation_create :: "int \<Rightarrow> int \<Rightarrow> ReservationStatus \<Rightarrow> database \<Rightarrow> Reservation option \<times> database" where
  "Reservation_create e u s d =
     (if \<not> int4 (reservations_seq d) then (None, d)
      else
        (let r = \<lparr>reservation_id = reservations_seq d, eventId = e, userId = u, status = s\<rparr>;
             d' = d\<lparr>reservations_seq := reservations_seq d + 1\<rparr>
         in if u \<in> set (map user_id (users d)) \<and> Event_findByPk e d \<noteq> None \<and>
               \<not> (s = CONFIRMED \<and> Reservation_findOne e u CONFIRMED d \<noteq> None)
            then (Some r, d'\<lparr>reservations := reservations d @ [r]\<rparr>)
            else (None, d')))"

text \<open>
  \<open>instance.update\<close>, \<open>instance.increment\<close> and \<open>instance.decrement\<close> issue an
  \<open>UPDATE ... WHERE id = pk\<close>: every row with that key is rewritten.
\<close>

definition Event_update :: "int \<Rightarrow> (Event \<Rightarrow> Event) \<Rightarrow> database \<Rightarrow> database" where
  "Event_update k f d =
     d\<lparr>events := map (\<lambda>e. if event_id e = k then f e else e) (events d)\<rparr>"

definition Event_increment :: "int \<Rightarrow> int \<Rightarrow> database \<Rightarrow> database" where
  "Event_increment k by d = Event_update k (\<lambda>e. e\<lparr>availableSpots := availableSpots e + by\<rparr>) d"

definition Event_decrement :: "int \<Rightarrow> int \<Rightarrow> database \<Rightarrow> database" where
  "Event_decrement k by d = Event_update k (\<lambda>e. e\<lparr>availableSpots := availableSpots e - by\<rparr>) d"

definition Reservation_update :: "int \<Rightarrow> ReservationStatus \<Rightarrow> database \<Rightarrow> database" where
  "Reservation_update k s d =
     d\<lparr>reservations := map (\<lambda>r. if reservation_id r = k then r\<lparr>status := s\<rparr> else r) (reservations d)\<rparr>"

section \<open>Redis cache helpers\<close>

text \<open>
  The Redis client is outside the repository; it is modelled as a key-value list that
  answers \<open>DEL\<close> and \<open>KEYS\<close>. Any command may throw: \<open>faults\<close> holds, for the
  commands still to come, whether each one throws (an empty list: none does).
  \<open>trace\<close> records every command sent, with whether it threw.
\<close>

datatype redis_cmd = DEL "string list" | KEYS string

record redis_client =
  store :: "(string \<times> string) list"
  faults :: "bool list"
  trace :: "(redis_cmd \<times> bool) list"

datatype console_line = Log string | Error string

text \<open>Decimal rendering of a number inside a template literal.\<close>

definition digit_char :: "nat \<Rightarrow> char" where
  "digit_char d = ''0123456789'' ! d"

function show_nat :: "nat \<Rightarrow> string" where
  "show_nat n = (if n < 10 then [digit_char n] else show_nat (n div 10) @ [digit_char (n mod 10)])"
  by pat_completeness auto
termination
  by (relation "measure (\<lambda>n. n)") auto

declare show_nat.simps [simp del]

definition show_int :: "int \<Rightarrow> string" where
  "show_int i = (if i < 0 then CHR ''-'' # show_nat (nat (- i)) else show_nat (nat i))"

text \<open>
  Glob matching of \<open>KEYS\<close>, for patterns made of literal characters and \<open>*\<close>
  (the only pattern the server uses is \<open>events:page:*\<close>).
\<close>

fun glob_match :: "string \<Rightarrow> string \<Rightarrow> bool" where
  "glob_match [] s = (s = [])"
| "glob_match (p # ps) [] = (p = CHR ''*'' \<and> glob_match ps [])"
| "glob_match (p # ps) (c # cs) =
     (if p = CHR ''*'' then glob_match ps (c # cs) \<or> glob_match (p # ps) cs
      else p = c \<and> glob_match ps cs)"

definition redis_call :: "redis_cmd \<Rightarrow> redis_client \<Rightarrow> bool \<times> redis_client" where
  "redis_call c rc =
     (let thrown = (case faults rc of [] \<Rightarrow> False | f # _ \<Rightarrow> f)
      in (thrown, rc\<lparr>faults := tl (faults rc), trace := trace rc @ [(c, thrown)]\<rparr>))"

text \<open>\<open>None\<close>: the command threw.\<close>

definition redis_del :: "string list \<Rightarrow> redis_client \<Rightarrow> unit option \<times> redis_client" where
  "redis_del ks rc =
     (let (thrown, rc') = redis_call (DEL ks) rc
      in if thrown then (None, rc')
         else (Some (), rc'\<lparr>store := filter (\<lambda>kv. fst kv \<notin> set ks) (store rc')\<rparr>))"

definition redis_keys :: "string \<Rightarrow> redis_client \<Rightarrow> string list option \<times> redis_client" where
  "redis_keys pattern rc =
     (let (thrown, rc') = redis_call (KEYS pattern) rc
      in if thrown then (None, rc')
         else (Some (filter (glob_match pattern) (map fst (store rc'))), rc'))"

definition POPULAR_EVENTS :: string where
  "POPULAR_EVENTS = ''popular_events''"

definition EVENT_DETAILS :: "int \<Rightarrow> string" where
  "EVENT_DETAILS eid = ''event:'' @ show_int eid"

definition EVENT_LIST :: "int \<Rightarrow> int \<Rightarrow> string" where
  "EVENT_LIST page limit = ''events:page:'' @ show_int page @ '':limit:'' @ show_int limit"

text \<open>
  The state the request handlers act on: the database, the Redis client and the
  console.
\<close>

record world =
  db :: database
  redis :: redis_client
  console :: "console_line list"

text \<open>\<open>cacheUtils.del\<close> and \<open>cacheUtils.delPattern\<close> catch what the client throws.\<close>

definition cacheUtils_del :: "string \<Rightarrow> world \<Rightarrow> world" where
  "cacheUtils_del key w =
     (case redis_del [key] (redis w) of
        (Some _, rc) \<Rightarrow> w\<lparr>redis := rc\<rparr>
      | (None, rc) \<Rightarrow> w\<lparr>redis := rc, console := console w @ [Error ''Cache delete error:'']\<rparr>)"

definition cacheUtils_delPattern :: "string \<Rightarrow> world \<Rightarrow> world" where
  "cacheUtils_delPattern pattern w =
     (case redis_keys pattern (redis w) of
        (None, rc) \<Rightarrow>
          w\<lparr>redis := rc, console := console w @ [Error ''Cache pattern delete error:'']\<rparr>
      | (Some keys, rc) \<Rightarrow>
          if 0 < length keys then
            (case redis_del keys rc of
               (None, rc') \<Rightarrow>
                 w\<lparr>redis := rc', console := console w @ [Error ''Cache pattern delete error:'']\<rparr>
             | (Some _, rc') \<Rightarrow>
                 w\<lparr>redis := rc',
                   console := console w @
                     [Log (''Deleted '' @ show_nat (length keys) @
                           '' cache keys matching pattern: '' @ pattern)]\<rparr>)
          else w\<lparr>redis := rc\<rparr>)"

text \<open>
  \<open>clearEventCaches\<close>, the same helper in both controllers. Its own \<open>catch\<close> is
  never entered, since neither \<open>cacheUtils\<close> function throws. (The console text is
  given without the leading pictograph of the source.)
\<close>

definition clearEventCaches :: "int \<Rightarrow> world \<Rightarrow> world" where
  "clearEventCaches eid w =
     (let w1 = cacheUtils_del POPULAR_EVENTS w;
          w2 = cacheUtils_del (EVENT_DETAILS eid) w1;
          w3 = cacheUtils_delPattern ''events:page:*'' w2
      in w3\<lparr>console := console w3 @ [Log (''Cleared event caches for event '' @ show_int eid)]\<rparr>)"

section \<open>Request handlers\<close>

datatype json =
    ErrorJson string
  | MessageJson string
  | ReservationJson string "Reservation option"
  | EventJson string "Event option"

text \<open>An HTTP response: the status code and the JSON body.\<close>

datatype response = Response nat json

text \<open>
  A transaction is the working copy of the database: \<open>rollback\<close> drops its rows
  (the sequence keeps the values it handed out), \<open>commit\<close> installs it. What the
  database refuses is a branch of \<open>createReservation\<close> and of \<open>updateEvent\<close>: ids
  and numbers outside the INTEGER range, the constraints on a new reservation, texts
  longer than their column. The \<open>catch\<close> block then writes one line to the console
  and answers 500. Loss of the connection to the database is not modelled.
\<close>

definition rollback :: "world \<Rightarrow> database \<Rightarrow> world" where
  "rollback w t = w\<lparr>db := (db w)\<lparr>reservations_seq := reservations_seq t\<rparr>\<rparr>"

definition internal_error :: "string \<Rightarrow> world \<Rightarrow> world \<times> response" where
  "internal_error msg w =
     (w\<lparr>console := console w @ [Error msg]\<rparr>, Response 500 (ErrorJson ''Internal server error''))"

definition commit :: "world \<Rightarrow> database \<Rightarrow> world" where
  "commit w t = w\<lparr>db := t\<rparr>"

text \<open>
  \<open>createReservation\<close>: \<open>req_user\<close> is \<open>req.user\<close>, the second argument
  \<open>req.params.id\<close>, \<open>now\<close> the value of \<open>new Date()\<close>.

  The handler is written in the two parts that its \<open>await\<close>s separate: the reads
  and checks up to the test of \<open>event.availableSpots\<close>, and the writes from
  \<open>Reservation.create\<close> on. Between the two, the handler holds \<open>req.user\<close>, the
  id and the \<open>event\<close> instance it read; the writes act on the store as it is when
  they run. \<open>Event.findByPk\<close> and \<open>Reservation.findOne\<close> take no lock.
\<close>

datatype create_pending = Pending User int Event

definition createReservation_checks ::
    "User option \<Rightarrow> int \<Rightarrow> int \<Rightarrow> world \<Rightarrow> (world \<times> response) + create_pending" where
  "createReservation_checks req_user eid now w =
     (let t = db w in
      case req_user of
        None \<Rightarrow> Inl (w, Response 401 (ErrorJson ''Authentication required''))
      | Some u \<Rightarrow>
         if \<not> int4 eid then Inl (internal_error ''Create reservation error:'' (rollback w t))
         else
         (case Event_findByPk eid t of
            None \<Rightarrow> Inl (rollback w t, Response 404 (ErrorJson ''Event not found''))
          | Some event \<Rightarrow>
              if eventDate event \<le> now then
                Inl (rollback w t, Response 400 (ErrorJson ''Cannot reserve spots for past events''))
              else if role u = admin \<and> creatorId event = user_id u then
                Inl (rollback w t, Response 400 (ErrorJson ''You cannot reserve a spot for your own event''))
              else if \<not> int4 (user_id u) then
                Inl (internal_error ''Create reservation error:'' (rollback w t))
              else
                (case Reservation_findOne eid (user_id u) CONFIRMED t of
                   Some existingReservation \<Rightarrow>
                     Inl (rollback w t, Response 409 (ErrorJson ''You already have a reservation for this event''))
                 | None \<Rightarrow>
                     if availableSpots event \<le> 0 then
                       Inl (rollback w t, Response 400 (ErrorJson ''No available spots for this event''))
                     else Inr (Pending u eid event))))"

definition createReservation_writes :: "create_pending \<Rightarrow> world \<Rightarrow> world \<times> response" where
  "createReservation_writes p w =
     (case p of Pending u eid event \<Rightarrow>
        (let t = db w in
         case Reservation_create eid (user_id u) CONFIRMED t of
           (None, t1) \<Rightarrow> internal_error ''Create reservation error:'' (rollback w t1)
         | (Some reservation, t1) \<Rightarrow>
             (let t2 = Event_decrement (event_id event) 1 t1;
                  w1 = commit w t2;
                  createdReservation = Reservation_findByPk (reservation_id reservation) (db w1);
                  w2 = clearEventCaches eid w1
              in (w2, Response 201
                    (ReservationJson ''Reservation created successfully'' createdReservation)))))"

text \<open>
  A handler that stopped in its checks has answered; one that passed them goes on to
  its writes. \<open>createReservation\<close> is a request served without anything happening in
  between.
\<close>

definition createReservation_resume :: "(world \<times> response) + create_pending \<Rightarrow> world \<Rightarrow> world \<times> response" where
  "createReservation_resume x w = (case x of Inl done \<Rightarrow> done | Inr p \<Rightarrow> createReservation_writes p w)"

definition createReservation :: "User option \<Rightarrow> int \<Rightarrow> int \<Rightarrow> world \<Rightarrow> world \<times> response" where
  "createReservation req_user eid now w =
     createReservation_resume (createReservation_checks req_user eid now w) w"

text \<open>
  Two requests for the same event. Served one after the other:
\<close>

definition createReservation_serial ::
    "User option \<Rightarrow> User option \<Rightarrow> int \<Rightarrow> int \<Rightarrow> world \<Rightarrow> world \<times> response \<times> response" where
  "createReservation_serial ua ub eid now w =
     (let (w1, ra) = createReservation ua eid now w;
          (w2, rb) = createReservation ub eid now w1
      in (w2, ra, rb))"

text \<open>
  Served at once, the second request being read and checked while the first awaits
  its insert: checks of the first, checks of the second, writes of the first, writes of
  the second. A request that stopped in its checks has answered and takes no further
  part.
\<close>

definition createReservation_interleaved ::
    "User option \<Rightarrow> User option \<Rightarrow> int \<Rightarrow> int \<Rightarrow> world \<Rightarrow> world \<times> response \<times> response" where
  "createReservation_interleaved ua ub eid now w =
     (case createReservation_checks ua eid now w of
        Inl (wa, ra) \<Rightarrow>
          (let (wb, rb) = createReservation ub eid now wa in (wb, ra, rb))
      | Inr pa \<Rightarrow>
          (case createReservation_checks ub eid now w of
             Inl (wb, rb) \<Rightarrow>
               (let (wa, ra) = createReservation_writes pa wb in (wa, ra, rb))
           | Inr pb \<Rightarrow>
               (let (w1, ra) = createReservation_writes pa w;
                    (w2, rb) = createReservation_writes pb w1
                in (w2, ra, rb))))"

text \<open>
  \<open>cancelReservation\<close>, for the reservation ids and counters that a stored row can
  have: its \<open>catch\<close> is entered only for an id outside the INTEGER range, which is
  answered 404 here, and for a counter at the upper end of that range; the rows are
  left as they were in both.
\<close>

definition cancelReservation :: "User option \<Rightarrow> int \<Rightarrow> world \<Rightarrow> world \<times> response" where
  "cancelReservation req_user rid w =
     (let t = db w in
      case req_user of
        None \<Rightarrow> (w, Response 401 (ErrorJson ''Authentication required''))
      | Some u \<Rightarrow>
         (case Reservation_findByPk rid t of
            None \<Rightarrow> (rollback w t, Response 404 (ErrorJson ''Reservation not found''))
          | Some reservation \<Rightarrow>
              if role u \<noteq> admin \<and> user_id u \<noteq> userId reservation then
                (rollback w t, Response 403 (ErrorJson ''You can only cancel your own reservations''))
              else if status reservation = CANCELED then
                (rollback w t, Response 400 (ErrorJson ''Reservation is already canceled''))
              else
                (let t1 = Reservation_update (reservation_id reservation) CANCELED t;
                     t2 = (case Event_findByPk (eventId reservation) t1 of
                             Some event \<Rightarrow> Event_increment (event_id event) 1 t1
                           | None \<Rightarrow> t1);
                     w1 = commit w t2;
                     w2 = clearEventCaches (eventId reservation) w1
                 in (w2, Response 200 (MessageJson ''Reservation canceled successfully'')))))"

text \<open>
  The body of \<open>PUT /events/:id\<close>; \<open>None\<close> is an absent (\<open>undefined\<close>) field and
  \<open>req_eventDate\<close> is the date already parsed. The route runs
  \<open>validateEventUpdate\<close> before the handler: a \<open>maxCapacity\<close> that arrives is an
  integer of at least 1 with no upper bound, a name has at most 255 characters, a link
  is a URL, a date lies in the future; location and link have no upper length.
\<close>

record UpdateEventRequest =
  req_name :: "string option"
  req_description :: "string option"
  req_eventDate :: "int option"
  req_location :: "string option"
  req_onlineLink :: "string option"
  req_maxCapacity :: "int option"

text \<open>The part of \<open>updateData\<close> that does not concern capacity.\<close>

definition updateData :: "UpdateEventRequest \<Rightarrow> Event \<Rightarrow> Event" where
  "updateData body e =
     e\<lparr>name := (case req_name body of Some n \<Rightarrow> if n \<noteq> [] then n else name e | None \<Rightarrow> name e),
       description := (case req_description body of Some x \<Rightarrow> Some x | None \<Rightarrow> description e),
       eventDate := (case req_eventDate body of Some x \<Rightarrow> x | None \<Rightarrow> eventDate e),
       location := (case req_location body of Some x \<Rightarrow> Some x | None \<Rightarrow> location e),
       onlineLink := (case req_onlineLink body of Some x \<Rightarrow> Some x | None \<Rightarrow> onlineLink e)\<rparr>"

text \<open>
  \<open>truthy_changed\<close> is the guard \<open>maxCapacity && maxCapacity !== event.maxCapacity\<close>:
  an absent field and the number 0 are falsy.
\<close>

definition truthy_changed :: "int option \<Rightarrow> Event \<Rightarrow> bool" where
  "truthy_changed m event = (case m of None \<Rightarrow> False | Some n \<Rightarrow> n \<noteq> 0 \<and> n \<noteq> maxCapacity event)"

text \<open>
  \<open>update_refused\<close>: when \<open>event.update(updateData)\<close> throws. The validators of
  \<open>Event.init\<close> refuse a \<open>maxCapacity\<close> below 1 and a name longer than 255; the
  database refuses a number outside the INTEGER range and a text longer than its
  \<open>STRING\<close> column. (The validators of date and link accept what the route let
  through.)
\<close>

definition update_refused :: "UpdateEventRequest \<Rightarrow> Event \<Rightarrow> bool" where
  "update_refused body event \<longleftrightarrow>
     (case req_maxCapacity body of
        None \<Rightarrow> False
      | Some n \<Rightarrow>
          truthy_changed (Some n) event \<and>
          (n < 1 \<or> \<not> int4 n \<or> \<not> int4 (n - (maxCapacity event - availableSpots event)))) \<or>
     (case req_name body of None \<Rightarrow> False | Some x \<Rightarrow> x \<noteq> [] \<and> 255 < length x) \<or>
     (case req_location body of None \<Rightarrow> False | Some x \<Rightarrow> 255 < length x) \<or>
     (case req_onlineLink body of None \<Rightarrow> False | Some x \<Rightarrow> 255 < length x)"

definition updateEvent :: "User option \<Rightarrow> int \<Rightarrow> UpdateEventRequest \<Rightarrow> world \<Rightarrow> world \<times> response" where
  "updateEvent req_user eid body w =
     (if \<not> int4 eid then internal_error ''Update event error:'' w
      else
      case Event_findByPk eid (db w) of
        None \<Rightarrow> (w, Response 404 (ErrorJson ''Event not found''))
      | Some event \<Rightarrow>
          if (case req_user of None \<Rightarrow> True
              | Some u \<Rightarrow> role u \<noteq> admin \<and> user_id u \<noteq> creatorId event) then
            (w, Response 403 (ErrorJson ''You can only update your own events''))
          else
            (let reservedSpots = maxCapacity event - availableSpots event;
                 n = (case req_maxCapacity body of Some m \<Rightarrow> m | None \<Rightarrow> 0)
             in if truthy_changed (req_maxCapacity body) event \<and> n < reservedSpots then
                  (w, Response 400
                        (ErrorJson (''Cannot reduce capacity below '' @ show_int reservedSpots @
                                    '' (current reservations)'')))
                else if update_refused body event then internal_error ''Update event error:'' w
                else
                  (let upd = (if truthy_changed (req_maxCapacity body) event
                              then (\<lambda>e. (updateData body e)\<lparr>maxCapacity := n,
                                                           availableSpots := n - reservedSpots\<rparr>)
                              else updateData body);
                       w1 = w\<lparr>db := Event_update (event_id event) upd (db w)\<rparr>;
                       updatedEvent = Event_findByPk (event_id event) (db w1);
                       w2 = clearEventCaches (event_id event) w1
                   in (w2, Response 200 (EventJson ''Event updated successfully'' updatedEvent)))))"


section \<open>Sequences of operations\<close>

datatype operation =
    CreateReservation "User option" int int
  | CancelReservation "User option" int
  | ResizeEventCapacity "User option" int UpdateEventRequest

text \<open>
  One request served to completion, and a sequence of requests served one after the
  other. \<open>ResizeEventCapacity\<close> is a \<open>PUT /events/:id\<close> with any body.
\<close>

fun step :: "operation \<Rightarrow> world \<Rightarrow> world" where
  "step (CreateReservation req_user eid now) w = fst (createReservation req_user eid now w)"
| "step (CancelReservation req_user rid) w = fst (cancelReservation req_user rid w)"
| "step (ResizeEventCapacity req_user eid body) w = fst (updateEvent req_user eid body w)"

definition run :: "operation list \<Rightarrow> world \<Rightarrow> world" where
  "run ops w = fold step ops w"

section \<open>Invariants of the store\<close>

text \<open>The number of confirmed reservations of an event.\<close>

definition confirmedCount :: "int \<Rightarrow> database \<Rightarrow> nat" where
  "confirmedCount k d =
     length (filter (\<lambda>r. eventId r = k \<and> status r = CONFIRMED) (reservations d))"

text \<open>
  What the schema declared in \<open>Event.init\<close> and \<open>Reservation.init\<close> enforces: the
  primary keys, the sequence behind \<open>reservations.id\<close>, and the unique index
  \<open>unique_active_reservation_per_user_per_event\<close> on (eventId, userId) where the
  status is confirmed.
\<close>

definition schema_ok :: "database \<Rightarrow> bool" where
  "schema_ok d \<longleftrightarrow>
     distinct (map event_id (events d)) \<and>
     distinct (map reservation_id (reservations d)) \<and>
     (\<forall>r \<in> set (reservations d). reservation_id r < reservations_seq d) \<and>
     (\<forall>r \<in> set (reservations d). \<forall>r' \<in> set (reservations d).
        status r = CONFIRMED \<and> status r' = CONFIRMED \<and> eventId r = eventId r' \<and> userId r = userId r'
        \<longrightarrow> reservation_id r = reservation_id r')"

text \<open>The capacity ledger: no event is oversold and the counter agrees with the rows.\<close>

definition ledger_ok :: "database \<Rightarrow> bool" where
  "ledger_ok d \<longleftrightarrow>
     (\<forall>e \<in> set (events d).
        0 \<le> availableSpots e \<and>
        availableSpots e = maxCapacity e - int (confirmedCount (event_id e) d))"

definition consistent :: "database \<Rightarrow> bool" where
  "consistent d \<longleftrightarrow> schema_ok d \<and> ledger_ok d"

text \<open>
  A store as \<open>createEvent\<close> leaves it before any reservation: each event was
  inserted with \<open>availableSpots: maxCapacity\<close>, and \<open>maxCapacity\<close> passed the
  validation \<open>min: 1\<close>.
\<close>

definition fresh :: "database \<Rightarrow> bool" where
  "fresh d \<longleftrightarrow>
     reservations d = [] \<and> distinct (map event_id (events d)) \<and>
     (\<forall>e \<in> set (events d). 1 \<le> maxCapacity e \<and> availableSpots e = maxCapacity e)"

section \<open>A worked scenario\<close>

text \<open>
  One event with two places and three users: A reserves, B reserves, C is refused,
  A cancels, C reserves.
\<close>

definition userA :: User where
  "userA = \<lparr>user_id = 1, email = ''a@example.org'', role = user\<rparr>"

definition userB :: User where
  "userB = \<lparr>user_id = 2, email = ''b@example.org'', role = user\<rparr>"

definition userC :: User where
  "userC = \<lparr>user_id = 3, email = ''c@example.org'', role = user\<rparr>"

text \<open>
  User 7 created the event. \<open>admin7\<close> is that user with a token issued for the role
  admin, \<open>owner7\<close> the same user with a token issued for the role user.
\<close>

definition admin7 :: User where
  "admin7 = \<lparr>user_id = 7, email = ''owner@example.org'', role = admin\<rparr>"


definition launch :: Event where
  "launch = \<lparr>event_id = 1, name = ''Launch'', description = None, eventDate = 1000,
      location = None, onlineLink = None, maxCapacity = 2, availableSpots = 2, creatorId = 7\<rparr>"

definition world0 :: world where
  "world0 = \<lparr>db = \<lparr>users = [userA, userB, userC, admin7], events = [launch],
                    reservations = [], reservations_seq = 1\<rparr>,
             redis = \<lparr>store = [], faults = [], trace = []\<rparr>, console = []\<rparr>"

definition scenario :: "operation list" where
  "scenario = [CreateReservation (Some userA) 1 100, CreateReservation (Some userB) 1 100,
               CreateReservation (Some userC) 1 100, CancelReservation (Some userA) 1,
               CreateReservation (Some userC) 1 100]"

section \<open>Outcomes by name\<close>

text \<open>
  The responses of the two reservation handlers and of the capacity check, under the
  names of the error kinds they stand for.
\<close>

definition EventNotFound :: response where
  "EventNotFound = Response 404 (ErrorJson ''Event not found'')"

definition EventInPast :: response where
  "EventInPast = Response 400 (ErrorJson ''Cannot reserve spots for past events'')"

definition SelfReservationForbidden :: response where
  "SelfReservationForbidden = Response 400 (ErrorJson ''You cannot reserve a spot for your own event'')"

definition AlreadyReserved :: response where
  "AlreadyReserved = Response 409 (ErrorJson ''You already have a reservation for this event'')"

definition NoCapacity :: response where
  "NoCapacity = Response 400 (ErrorJson ''No available spots for this event'')"

definition ReservationNotFound :: response where
  "ReservationNotFound = Response 404 (ErrorJson ''Reservation not found'')"

definition Forbidden :: response where
  "Forbidden = Response 403 (ErrorJson ''You can only cancel your own reservations'')"


definition CapacityBelowReservedFloor :: "int \<Rightarrow> response" where
  "CapacityBelowReservedFloor reservedSpots =
     Response 400 (ErrorJson (''Cannot reduce capacity below '' @ show_int reservedSpots @
                              '' (current reservations)''))"

definition StorageFailure :: response where
  "StorageFailure = Response 500 (ErrorJson ''Internal server error'')"

definition ReservationCreated :: "Reservation option \<Rightarrow> response" where
  "ReservationCreated r = Response 201 (ReservationJson ''Reservation created successfully'' r)"

definition ReservationCanceled :: response where
  "ReservationCanceled = Response 200 (MessageJson ''Reservation canceled successfully'')"

definition EventUpdated :: "Event option \<Rightarrow> response" where
  "EventUpdated e = Response 200 (EventJson ''Event updated successfully'' e)"

text \<open>
  \<open>checkUserReservation\<close> answers \<open>hasReservation: !!reservation\<close> for the same
  query that \<open>createReservation\<close> runs before inserting.
\<close>

definition hasActiveReservation :: "int \<Rightarrow> int \<Rightarrow> database \<Rightarrow> bool" where
  "hasActiveReservation eid uid d = (Reservation_findOne eid uid CONFIRMED d \<noteq> None)"

text \<open>A store in which reservation 4 points at an event that is gone.\<close>

definition orphan_world :: world where
  "orphan_world =
     \<lparr>db = \<lparr>users = [userA], events = [launch],
             reservations = [\<lparr>reservation_id = 4, eventId = 5, userId = 1, status = CONFIRMED\<rparr>],
             reservations_seq = 5\<rparr>,
      redis = \<lparr>store = [], faults = [], trace = []\<rparr>, console = []\<rparr>"

text \<open>A request body that changes nothing but the capacity.\<close>

definition resize_request :: "int \<Rightarrow> UpdateEventRequest" where
  "resize_request n =
     \<lparr>req_name = None, req_description = None, req_eventDate = None,
      req_location = None, req_onlineLink = None, req_maxCapacity = Some n\<rparr>"

section \<open>Cache invalidation, stated\<close>

text \<open>
  The three invalidation commands of \<open>clearEventCaches\<close>, in the order they are sent:
  the ranking key, the detail key of the event, and the search for every listing key.
\<close>

definition invalidation_signals :: "int \<Rightarrow> redis_cmd list" where
  "invalidation_signals eid = [DEL [POPULAR_EVENTS], DEL [EVENT_DETAILS eid], KEYS ''events:page:*'']"

text \<open>The commands sent to Redis, and the lines written to the console, between two states.\<close>

definition sent_between :: "world \<Rightarrow> world \<Rightarrow> (redis_cmd \<times> bool) list" where
  "sent_between w w' = drop (length (trace (redis w))) (trace (redis w'))"

definition logged_between :: "world \<Rightarrow> world \<Rightarrow> console_line list" where
  "logged_between w w' = drop (length (console w)) (console w')"

fun is_Error_line :: "console_line \<Rightarrow> bool" where
  "is_Error_line (Error _) = True"
| "is_Error_line (Log _) = False"

text \<open>
  \<open>invalidation_done eid w w'\<close>: between \<open>w\<close> and \<open>w'\<close> the three signals for event
  \<open>eid\<close> were sent first and in order; each command that threw left one error line
  on the console; and if no command throws, no ranking, detail or listing key is left
  in the cache.
\<close>

definition invalidation_done :: "int \<Rightarrow> world \<Rightarrow> world \<Rightarrow> bool" where
  "invalidation_done eid w w' \<longleftrightarrow>
     prefix (invalidation_signals eid) (map fst (sent_between w w')) \<and>
     length (filter is_Error_line (logged_between w w')) = length (filter snd (sent_between w w')) \<and>
     (faults (redis w) = [] \<longrightarrow>
        (\<forall>k \<in> set (map fst (store (redis w'))).
           k \<noteq> POPULAR_EVENTS \<and> k \<noteq> EVENT_DETAILS eid \<and> \<not> glob_match ''events:page:*'' k))"

text \<open>
  A cache holding a ranking, a detail page, a listing and an unrelated key; and the
  same cache behind a client whose first and third commands throw.
\<close>

definition cached_world :: world where
  "cached_world = world0\<lparr>redis :=
     \<lparr>store = [(''popular_events'', ''[]''), (''event:1'', ''{}''),
               (''events:page:1:limit:10:date:all:name:all:location:all'', ''{}''),
               (''user:1'', ''{}'')],
      faults = [], trace = []\<rparr>\<rparr>"

definition flaky_world :: world where
  "flaky_world = cached_world\<lparr>redis := (redis cached_world)\<lparr>faults := [True, False, True]\<rparr>\<rparr>"

text \<open>
  A store whose only event shows every place free while reservation 1 for it is still
  confirmed.
\<close>

definition full_world :: world where
  "full_world =
     \<lparr>db = \<lparr>users = [userA], events = [launch],
             reservations = [\<lparr>reservation_id = 1, eventId = 1, userId = 1, status = CONFIRMED\<rparr>],
             reservations_seq = 2\<rparr>,
      redis = \<lparr>store = [], faults = [], trace = []\<rparr>, console = []\<rparr>"

section \<open>Auxiliary facts\<close>

lemma db_cacheUtils_del: "db (cacheUtils_del k w) = db w"
  by (simp add: cacheUtils_del_def split: prod.splits option.splits)

lemma db_cacheUtils_delPattern: "db (cacheUtils_delPattern p w) = db w"
  by (simp add: cacheUtils_delPattern_def split: prod.splits option.splits)

lemma db_clearEventCaches: "db (clearEventCaches k w) = db w"
  by (simp add: clearEventCaches_def Let_def db_cacheUtils_del db_cacheUtils_delPattern)

lemma find_SomeD: "find P xs = Some x \<Longrightarrow> x \<in> set xs \<and> P x"
  by (induction xs) (auto split: if_splits)

lemma count_cancel:
  "distinct (map reservation_id rs) \<Longrightarrow> r \<in> set rs \<Longrightarrow> status r = CONFIRMED \<Longrightarrow>
   length (filter (\<lambda>x. eventId x = k \<and> status x = CONFIRMED)
      (map (\<lambda>x. if reservation_id x = reservation_id r then x\<lparr>status := CANCELED\<rparr> else x) rs))
    + (if eventId r = k then 1 else 0)
   = length (filter (\<lambda>x. eventId x = k \<and> status x = CONFIRMED) rs)"
proof (induction rs)
  case Nil
  then show ?case by simp
next
  case (Cons a rs)
  show ?case
  proof (cases "a = r")
    case True
    have "\<forall>x \<in> set rs. reservation_id x \<noteq> reservation_id r"
      using Cons.prems(1) True by (metis distinct.simps(2) image_eqI list.simps(9) set_map)
    then have "map (\<lambda>x. if reservation_id x = reservation_id r then x\<lparr>status := CANCELED\<rparr> else x) rs = rs"
      by (induction rs) auto
    then show ?thesis using True Cons.prems(3) by simp
  next
    case False
    then have "r \<in> set rs" using Cons.prems(2) by simp
    moreover have "reservation_id a \<noteq> reservation_id r"
      using Cons.prems(1) \<open>r \<in> set rs\<close> by (metis distinct.simps(2) image_eqI list.simps(9) set_map)
    ultimately show ?thesis using Cons by (auto split: if_splits)
  qed
qed


lemma map_event_id_upd:
  assumes "\<And>x. event_id (f x) = event_id x"
  shows "map event_id (map (\<lambda>e. if event_id e = k then f e else e) es) = map event_id es"
  using assms by (induction es) auto

lemma map_reservation_id_upd:
  "map reservation_id (map (\<lambda>r. if reservation_id r = k then r\<lparr>status := s\<rparr> else r) rs)
     = map reservation_id rs"
  by (induction rs) auto

lemma same_pk_same_row:
  "distinct (map f xs) \<Longrightarrow> x \<in> set xs \<Longrightarrow> y \<in> set xs \<Longrightarrow> f x = f y \<Longrightarrow> x = y"
  by (auto simp: distinct_map dest: inj_onD)

lemma schema_ok_events_pk: "schema_ok d \<Longrightarrow> distinct (map event_id (events d))"
  unfolding schema_ok_def by blast

lemma schema_ok_reservations_pk: "schema_ok d \<Longrightarrow> distinct (map reservation_id (reservations d))"
  unfolding schema_ok_def by blast

lemma schema_ok_seq: "schema_ok d \<Longrightarrow> \<forall>r \<in> set (reservations d). reservation_id r < reservations_seq d"
  unfolding schema_ok_def by blast

lemma schema_ok_index:
  "schema_ok d \<Longrightarrow> \<forall>r \<in> set (reservations d). \<forall>r' \<in> set (reservations d).
        status r = CONFIRMED \<and> status r' = CONFIRMED \<and> eventId r = eventId r' \<and> userId r = userId r'
        \<longrightarrow> reservation_id r = reservation_id r'"
  unfolding schema_ok_def by blast

lemma ledger_okD:
  "ledger_ok d \<Longrightarrow> \<forall>x \<in> set (events d). 0 \<le> availableSpots x \<and>
        availableSpots x = maxCapacity x - int (confirmedCount (event_id x) d)"
  unfolding ledger_ok_def by blast

lemma rollback_same: "rollback w (db w) = w"
  by (simp add: rollback_def)

lemma db_internal_error: "db (fst (internal_error msg w)) = db w"
  by (simp add: internal_error_def)

lemma consistent_seq_advance:
  assumes "consistent d"
  shows "consistent (d\<lparr>reservations_seq := reservations_seq d + 1\<rparr>)"
proof -
  let ?d' = "d\<lparr>reservations_seq := reservations_seq d + 1\<rparr>"
  from assms have sch: "schema_ok d" and led: "ledger_ok d"
    unfolding consistent_def by blast+
  have e: "events ?d' = events d" "reservations ?d' = reservations d"
    "reservations_seq ?d' = reservations_seq d + 1"
    by simp_all
  have s3: "\<forall>r \<in> set (reservations d). reservation_id r < reservations_seq d + 1"
    using schema_ok_seq [OF sch] by fastforce
  have "schema_ok ?d'"
    unfolding schema_ok_def e
    by (intro conjI schema_ok_events_pk [OF sch] schema_ok_reservations_pk [OF sch] s3
        schema_ok_index [OF sch])
  moreover have "ledger_ok ?d'"
    unfolding ledger_ok_def confirmedCount_def e using ledger_okD [OF led]
    unfolding confirmedCount_def .
  ultimately show ?thesis by (simp add: consistent_def)
qed

lemma create_db_consistent:
  assumes c: "consistent d"
    and fe: "Event_findByPk eid d = Some e"
    and fo: "Reservation_findOne eid uid CONFIRMED d = None"
    and av: "0 < availableSpots e"
  shows "consistent (Event_decrement (event_id e) 1 (d\<lparr>reservations_seq := reservations_seq d + 1, reservations := reservations d @ [\<lparr>reservation_id = reservations_seq d, eventId = eid, userId = uid, status = CONFIRMED\<rparr>]\<rparr>))"
proof -
  let ?r = "\<lparr>reservation_id = reservations_seq d, eventId = eid, userId = uid, status = CONFIRMED\<rparr>"
  let ?g = "\<lambda>x. if event_id x = event_id e then x\<lparr>availableSpots := availableSpots x - 1\<rparr> else x"
  let ?d' = "Event_decrement (event_id e) 1 (d\<lparr>reservations_seq := reservations_seq d + 1, reservations := reservations d @ [\<lparr>reservation_id = reservations_seq d, eventId = eid, userId = uid, status = CONFIRMED\<rparr>]\<rparr>)"
  have ev: "events ?d' = map ?g (events d)"
    by (simp add: Event_decrement_def Event_update_def Reservation_create_def Let_def)
  have rs: "reservations ?d' = reservations d @ [?r]"
    by (simp add: Event_decrement_def Event_update_def Reservation_create_def Let_def)
  have sq: "reservations_seq ?d' = reservations_seq d + 1"
    by (simp add: Event_decrement_def Event_update_def Reservation_create_def Let_def)
  from fe have e_in: "e \<in> set (events d)" and e_id: "event_id e = eid"
    using find_SomeD [of "\<lambda>x. event_id x = eid" "events d" e] by (simp_all add: Event_findByPk_def)
  from c have sch: "schema_ok d" and led: "ledger_ok d"
    unfolding consistent_def by blast+
  note d1 = schema_ok_events_pk [OF sch] and d2 = schema_ok_reservations_pk [OF sch]
    and d3 = schema_ok_seq [OF sch] and d4 = schema_ok_index [OF sch]
    and l = ledger_okD [OF led]
  from fo have none: "\<forall>x \<in> set (reservations d). \<not> (eventId x = eid \<and> userId x = uid \<and> status x = CONFIRMED)"
    by (simp add: Reservation_findOne_def find_None_iff)
  have cnt: "\<And>k j. confirmedCount k (Event_decrement j 1 (d\<lparr>reservations_seq := reservations_seq d + 1, reservations := reservations d @ [\<lparr>reservation_id = reservations_seq d, eventId = eid, userId = uid, status = CONFIRMED\<rparr>]\<rparr>))
      = confirmedCount k d + (if k = eid then 1 else 0)"
    by (simp add: confirmedCount_def Event_decrement_def Event_update_def Reservation_create_def Let_def)
  have me: "map event_id (map ?g (events d)) = map event_id (events d)"
    by (rule map_event_id_upd) simp
  have s1: "distinct (map event_id (events ?d'))"
    unfolding ev me by (rule d1)
  have s2: "distinct (map reservation_id (reservations ?d'))"
    unfolding rs using d2 d3 by auto
  have s3: "\<forall>r \<in> set (reservations ?d'). reservation_id r < reservations_seq ?d'"
    unfolding rs sq using d3 by auto
  have s4: "\<forall>r \<in> set (reservations ?d'). \<forall>r' \<in> set (reservations ?d').
        status r = CONFIRMED \<and> status r' = CONFIRMED \<and> eventId r = eventId r' \<and> userId r = userId r'
        \<longrightarrow> reservation_id r = reservation_id r'"
  proof (intro ballI impI)
    fix a b assume a: "a \<in> set (reservations ?d')" and b: "b \<in> set (reservations ?d')"
      and h: "status a = CONFIRMED \<and> status b = CONFIRMED \<and> eventId a = eventId b \<and> userId a = userId b"
    from a have a': "a \<in> set (reservations d) \<or> a = ?r" unfolding rs by auto
    from b have b': "b \<in> set (reservations d) \<or> b = ?r" unfolding rs by auto
    show "reservation_id a = reservation_id b"
    proof (cases "a = ?r")
      case True
      show ?thesis
      proof (cases "b = ?r")
        case True
        with \<open>a = ?r\<close> show ?thesis by simp
      next
        case False
        with b' have "b \<in> set (reservations d)" by simp
        with none h True show ?thesis by auto
      qed
    next
      case False
      with a' have ain: "a \<in> set (reservations d)" by simp
      show ?thesis
      proof (cases "b = ?r")
        case True
        with none h ain show ?thesis by auto
      next
        case False
        with b' have "b \<in> set (reservations d)" by simp
        with d4 ain h show ?thesis by blast
      qed
    qed
  qed
  have s5: "\<forall>x \<in> set (events ?d'). 0 \<le> availableSpots x \<and>
        availableSpots x = maxCapacity x - int (confirmedCount (event_id x) ?d')"
  proof
    fix x' assume "x' \<in> set (events ?d')"
    then obtain x where x: "x \<in> set (events d)" and x': "x' = ?g x"
      unfolding ev by auto
    from l x have lx: "0 \<le> availableSpots x"
      "availableSpots x = maxCapacity x - int (confirmedCount (event_id x) d)" by blast+
    show "0 \<le> availableSpots x' \<and> availableSpots x' = maxCapacity x' - int (confirmedCount (event_id x') ?d')"
    proof (cases "event_id x = event_id e")
      case True
      then have "x = e" using same_pk_same_row [OF d1 x e_in] by simp
      then have "0 < availableSpots x" using av by simp
      then show ?thesis using x' True lx(2) e_id unfolding cnt by simp
    next
      case False
      then show ?thesis using x' lx e_id unfolding cnt by simp
    qed
  qed
  show ?thesis
    unfolding consistent_def schema_ok_def ledger_ok_def by (intro conjI s1 s2 s3 s4 s5)
qed


lemma confirmedCount_Event_update: "confirmedCount k (Event_update j f d) = confirmedCount k d"
  by (simp add: confirmedCount_def Event_update_def)

lemma schema_ok_Event_update:
  assumes "schema_ok d" and "\<And>x. event_id (f x) = event_id x"
  shows "schema_ok (Event_update k f d)"
proof -
  have me: "map event_id (map (\<lambda>e. if event_id e = k then f e else e) (events d)) = map event_id (events d)"
    using assms(2) by (rule map_event_id_upd)
  have ev: "events (Event_update k f d) = map (\<lambda>e. if event_id e = k then f e else e) (events d)"
    by (simp add: Event_update_def)
  have "distinct (map event_id (events (Event_update k f d)))"
    unfolding ev me by (rule schema_ok_events_pk [OF assms(1)])
  moreover have "reservations (Event_update k f d) = reservations d"
    and "reservations_seq (Event_update k f d) = reservations_seq d"
    by (simp_all add: Event_update_def)
  ultimately show ?thesis
    using schema_ok_reservations_pk [OF assms(1)] schema_ok_seq [OF assms(1)] schema_ok_index [OF assms(1)]
    unfolding schema_ok_def by (simp only:)
qed

lemma canceled_row_cases:
  assumes "a' \<in> set (map (\<lambda>x. if reservation_id x = k then x\<lparr>status := CANCELED\<rparr> else x) rs)"
  shows "(a' \<in> set rs \<and> reservation_id a' \<noteq> k) \<or>
         (status a' = CANCELED \<and> reservation_id a' = k \<and> (\<exists>a \<in> set rs. reservation_id a = k))"
  using assms by (induction rs) (auto split: if_splits)

lemma schema_ok_Reservation_update_canceled:
  assumes s: "schema_ok d"
  shows "schema_ok (Reservation_update k CANCELED d)"
proof -
  let ?h = "\<lambda>x. if reservation_id x = k then x\<lparr>status := CANCELED\<rparr> else x"
  let ?d' = "Reservation_update k CANCELED d"
  have ev: "events ?d' = events d" and rs: "reservations ?d' = map ?h (reservations d)"
    and sq: "reservations_seq ?d' = reservations_seq d"
    by (simp_all add: Reservation_update_def)
  have s1: "distinct (map event_id (events ?d'))"
    unfolding ev by (rule schema_ok_events_pk [OF s])
  have s2: "distinct (map reservation_id (reservations ?d'))"
    unfolding rs map_reservation_id_upd by (rule schema_ok_reservations_pk [OF s])
  have s3: "\<forall>r \<in> set (reservations ?d'). reservation_id r < reservations_seq ?d'"
  proof
    fix a' assume "a' \<in> set (reservations ?d')"
    then have "a' \<in> set (map ?h (reservations d))" unfolding rs .
    from canceled_row_cases [OF this] schema_ok_seq [OF s]
    show "reservation_id a' < reservations_seq ?d'" unfolding sq by metis
  qed
  have s4: "\<forall>r \<in> set (reservations ?d'). \<forall>r' \<in> set (reservations ?d').
        status r = CONFIRMED \<and> status r' = CONFIRMED \<and> eventId r = eventId r' \<and> userId r = userId r'
        \<longrightarrow> reservation_id r = reservation_id r'"
  proof (intro ballI impI)
    fix a b assume "a \<in> set (reservations ?d')" and "b \<in> set (reservations ?d')"
      and h: "status a = CONFIRMED \<and> status b = CONFIRMED \<and> eventId a = eventId b \<and> userId a = userId b"
    then have a: "a \<in> set (map ?h (reservations d))" and b: "b \<in> set (map ?h (reservations d))"
      unfolding rs by simp_all
    from canceled_row_cases [OF a] h have "a \<in> set (reservations d)" by auto
    moreover from canceled_row_cases [OF b] h have "b \<in> set (reservations d)" by auto
    ultimately show "reservation_id a = reservation_id b"
      using schema_ok_index [OF s] h by blast
  qed
  show ?thesis unfolding schema_ok_def by (intro conjI s1 s2 s3 s4)
qed

lemma confirmedCount_cancel:
  assumes s: "schema_ok d" and fr: "Reservation_findByPk rid d = Some r" and st: "status r = CONFIRMED"
  shows "confirmedCount k (Reservation_update (reservation_id r) CANCELED d) + (if eventId r = k then 1 else 0)
           = confirmedCount k d"
proof -
  from fr have "r \<in> set (reservations d)"
    using find_SomeD [of "\<lambda>x. reservation_id x = rid" "reservations d" r]
    by (simp add: Reservation_findByPk_def)
  note cc = count_cancel [OF schema_ok_reservations_pk [OF s] this st, of k]
  have rs: "reservations (Reservation_update (reservation_id r) CANCELED d)
      = map (\<lambda>x. if reservation_id x = reservation_id r then x\<lparr>status := CANCELED\<rparr> else x) (reservations d)"
    by (simp add: Reservation_update_def)
  show ?thesis unfolding confirmedCount_def rs by (rule cc)
qed

lemma Event_findByPk_Reservation_update:
  "Event_findByPk k (Reservation_update j s d) = Event_findByPk k d"
  by (simp add: Event_findByPk_def Reservation_update_def)

lemma cancel_db_consistent:
  assumes c: "consistent d"
    and fr: "Reservation_findByPk rid d = Some r"
    and st: "status r = CONFIRMED"
  shows "consistent
     (case Event_findByPk (eventId r) (Reservation_update (reservation_id r) CANCELED d) of
        Some event \<Rightarrow> Event_increment (event_id event) 1 (Reservation_update (reservation_id r) CANCELED d)
      | None \<Rightarrow> Reservation_update (reservation_id r) CANCELED d)"
proof -
  let ?t1 = "Reservation_update (reservation_id r) CANCELED d"
  from c have sch: "schema_ok d" and led: "ledger_ok d"
    unfolding consistent_def by blast+
  note l = ledger_okD [OF led]
  have s1: "schema_ok ?t1" by (rule schema_ok_Reservation_update_canceled [OF sch])
  have ev1: "events ?t1 = events d" by (simp add: Reservation_update_def)
  note cnt = confirmedCount_cancel [OF sch fr st]
  show ?thesis
  proof (cases "Event_findByPk (eventId r) d")
    case None
    then have ne: "\<forall>x \<in> set (events d). event_id x \<noteq> eventId r"
      by (simp add: Event_findByPk_def find_None_iff)
    have "ledger_ok ?t1"
      unfolding ledger_ok_def ev1
    proof
      fix x assume x: "x \<in> set (events d)"
      with ne have "event_id x \<noteq> eventId r" by blast
      with cnt [of "event_id x"] have "confirmedCount (event_id x) ?t1 = confirmedCount (event_id x) d"
        by simp
      moreover from l x have "0 \<le> availableSpots x"
        "availableSpots x = maxCapacity x - int (confirmedCount (event_id x) d)" by blast+
      ultimately show "0 \<le> availableSpots x \<and>
          availableSpots x = maxCapacity x - int (confirmedCount (event_id x) ?t1)" by simp
    qed
    with s1 None show ?thesis
      by (simp add: consistent_def Event_findByPk_Reservation_update)
  next
    case (Some ev)
    then have ev_id: "event_id ev = eventId r"
      using find_SomeD [of "\<lambda>x. event_id x = eventId r" "events d" ev]
      by (simp add: Event_findByPk_def)
    let ?g = "\<lambda>x. if event_id x = eventId r then x\<lparr>availableSpots := availableSpots x + 1\<rparr> else x"
    let ?t2 = "Event_increment (eventId r) 1 ?t1"
    have s2: "schema_ok ?t2"
      unfolding Event_increment_def by (rule schema_ok_Event_update [OF s1]) simp
    have ev2: "events ?t2 = map ?g (events d)"
      by (simp add: Event_increment_def Event_update_def Reservation_update_def)
    have cnt2: "\<And>k. confirmedCount k ?t2 = confirmedCount k ?t1"
      by (simp add: Event_increment_def confirmedCount_Event_update)
    have "ledger_ok ?t2"
      unfolding ledger_ok_def
    proof
      fix x' assume "x' \<in> set (events ?t2)"
      then obtain x where x: "x \<in> set (events d)" and x': "x' = ?g x"
        unfolding ev2 by auto
      from l x have lx: "0 \<le> availableSpots x"
        "availableSpots x = maxCapacity x - int (confirmedCount (event_id x) d)" by blast+
      show "0 \<le> availableSpots x' \<and>
          availableSpots x' = maxCapacity x' - int (confirmedCount (event_id x') ?t2)"
      proof (cases "event_id x = eventId r")
        case True
        with cnt [of "event_id x"] have "confirmedCount (event_id x) ?t1 + 1 = confirmedCount (event_id x) d"
          by simp
        then show ?thesis using x' True lx unfolding cnt2 by simp
      next
        case False
        with cnt [of "event_id x"] have "confirmedCount (event_id x) ?t1 = confirmedCount (event_id x) d"
          by simp
        then show ?thesis using x' False lx unfolding cnt2 by simp
      qed
    qed
    with s2 Some ev_id show ?thesis
      by (simp add: consistent_def Event_findByPk_Reservation_update)
  qed
qed


lemma update_plain_consistent:
  assumes c: "consistent d"
    and f1: "\<And>x. event_id (f x) = event_id x"
    and f2: "\<And>x. maxCapacity (f x) = maxCapacity x"
    and f3: "\<And>x. availableSpots (f x) = availableSpots x"
  shows "consistent (Event_update k f d)"
proof -
  from c have sch: "schema_ok d" and led: "ledger_ok d"
    unfolding consistent_def by blast+
  note l = ledger_okD [OF led]
  have ev: "events (Event_update k f d) = map (\<lambda>e. if event_id e = k then f e else e) (events d)"
    by (simp add: Event_update_def)
  have "ledger_ok (Event_update k f d)"
    unfolding ledger_ok_def confirmedCount_Event_update
  proof
    fix x' assume "x' \<in> set (events (Event_update k f d))"
    then obtain x where x: "x \<in> set (events d)" and x': "x' = (if event_id x = k then f x else x)"
      unfolding ev by auto
    from l x have "0 \<le> availableSpots x"
      "availableSpots x = maxCapacity x - int (confirmedCount (event_id x) d)" by blast+
    then show "0 \<le> availableSpots x' \<and>
        availableSpots x' = maxCapacity x' - int (confirmedCount (event_id x') d)"
      using x' f1 f2 f3 by auto
  qed
  with schema_ok_Event_update [OF sch f1] show ?thesis
    by (simp add: consistent_def)
qed

lemma update_capacity_consistent:
  assumes c: "consistent d"
    and fe: "Event_findByPk eid d = Some e"
    and f1: "\<And>x. event_id (f x) = event_id x"
    and f2: "\<And>x. maxCapacity (f x) = n"
    and f3: "\<And>x. availableSpots (f x) = n - (maxCapacity e - availableSpots e)"
    and floor: "\<not> n < maxCapacity e - availableSpots e"
  shows "consistent (Event_update (event_id e) f d)"
proof -
  from c have sch: "schema_ok d" and led: "ledger_ok d"
    unfolding consistent_def by blast+
  note l = ledger_okD [OF led]
  from fe have e_in: "e \<in> set (events d)"
    using find_SomeD [of "\<lambda>x. event_id x = eid" "events d" e] by (simp add: Event_findByPk_def)
  have ev: "events (Event_update (event_id e) f d)
      = map (\<lambda>x. if event_id x = event_id e then f x else x) (events d)"
    by (simp add: Event_update_def)
  have "ledger_ok (Event_update (event_id e) f d)"
    unfolding ledger_ok_def confirmedCount_Event_update
  proof
    fix x' assume "x' \<in> set (events (Event_update (event_id e) f d))"
    then obtain x where x: "x \<in> set (events d)" and x': "x' = (if event_id x = event_id e then f x else x)"
      unfolding ev by auto
    from l x have lx: "0 \<le> availableSpots x"
      "availableSpots x = maxCapacity x - int (confirmedCount (event_id x) d)" by blast+
    show "0 \<le> availableSpots x' \<and>
        availableSpots x' = maxCapacity x' - int (confirmedCount (event_id x') d)"
    proof (cases "event_id x = event_id e")
      case True
      then have "x = e" using same_pk_same_row [OF schema_ok_events_pk [OF sch] x e_in] by simp
      then show ?thesis using x' True lx f1 f2 f3 floor by simp
    next
      case False
      then show ?thesis using x' lx by simp
    qed
  qed
  with schema_ok_Event_update [OF sch f1] show ?thesis
    by (simp add: consistent_def)
qed

lemma updateData_keeps:
  "event_id (updateData body x) = event_id x"
  "maxCapacity (updateData body x) = maxCapacity x"
  "availableSpots (updateData body x) = availableSpots x"
  "creatorId (updateData body x) = creatorId x"
  by (simp_all add: updateData_def)

lemma updateEvent_consistent:
  assumes c: "consistent (db w)"
  shows "consistent (db (fst (updateEvent req_user eid body w)))"
proof (cases "Event_findByPk eid (db w)")
  case None
  then show ?thesis using c by (simp add: updateEvent_def db_internal_error)
next
  case (Some e)
  let ?n = "case req_maxCapacity body of Some m \<Rightarrow> m | None \<Rightarrow> 0"
  let ?res = "maxCapacity e - availableSpots e"
  have plain: "consistent (Event_update (event_id e) (updateData body) (db w))"
    by (rule update_plain_consistent [OF c]) (simp_all add: updateData_keeps)
  have cap: "\<not> ?n < ?res \<Longrightarrow>
      consistent (Event_update (event_id e)
        (\<lambda>x. (updateData body x)\<lparr>maxCapacity := ?n, availableSpots := ?n - ?res\<rparr>) (db w))"
    by (rule update_capacity_consistent [OF c Some]) (simp_all add: updateData_keeps)
  show ?thesis
    using c Some plain cap
    by (simp add: updateEvent_def Let_def db_clearEventCaches db_internal_error)
qed

lemmas createReservation_defs =
  createReservation_def createReservation_resume_def createReservation_checks_def
  createReservation_writes_def

lemma Reservation_create_cases:
  "Reservation_create e u CONFIRMED d =
     (if int4 (reservations_seq d) \<and> u \<in> set (map user_id (users d)) \<and>
         Event_findByPk e d \<noteq> None \<and> Reservation_findOne e u CONFIRMED d = None
      then (Some \<lparr>reservation_id = reservations_seq d, eventId = e, userId = u, status = CONFIRMED\<rparr>,
            d\<lparr>reservations_seq := reservations_seq d + 1,
              reservations := reservations d @
                [\<lparr>reservation_id = reservations_seq d, eventId = e, userId = u, status = CONFIRMED\<rparr>]\<rparr>)
      else (None, if int4 (reservations_seq d)
                  then d\<lparr>reservations_seq := reservations_seq d + 1\<rparr> else d))"
  by (simp add: Reservation_create_def Let_def)

text \<open>The three things a reservation request can do to the store.\<close>

lemma createReservation_db:
  "db (fst (createReservation uo eid now w)) = db w \<or>
   db (fst (createReservation uo eid now w))
     = (db w)\<lparr>reservations_seq := reservations_seq (db w) + 1\<rparr> \<or>
   (\<exists>uid e. Event_findByPk eid (db w) = Some e \<and>
      Reservation_findOne eid uid CONFIRMED (db w) = None \<and> 0 < availableSpots e \<and>
      db (fst (createReservation uo eid now w))
        = Event_decrement (event_id e) 1
            ((db w)\<lparr>reservations_seq := reservations_seq (db w) + 1,
               reservations := reservations (db w) @
                 [\<lparr>reservation_id = reservations_seq (db w), eventId = eid, userId = uid,
                   status = CONFIRMED\<rparr>]\<rparr>))"
  by (auto simp: createReservation_defs Reservation_create_cases Let_def rollback_def commit_def
      internal_error_def db_clearEventCaches split: option.splits)

lemma createReservation_consistent:
  assumes c: "consistent (db w)"
  shows "consistent (db (fst (createReservation req_user eid now w)))"
  using createReservation_db [of req_user eid now w] c consistent_seq_advance [OF c]
    create_db_consistent [OF c]
  by auto

lemma cancelReservation_consistent:
  assumes c: "consistent (db w)"
  shows "consistent (db (fst (cancelReservation req_user rid w)))"
proof -
  have "\<And>r. Reservation_findByPk rid (db w) = Some r \<Longrightarrow> status r \<noteq> CANCELED \<Longrightarrow>
      consistent
     (case Event_findByPk (eventId r) (Reservation_update (reservation_id r) CANCELED (db w)) of
        Some event \<Rightarrow> Event_increment (event_id event) 1 (Reservation_update (reservation_id r) CANCELED (db w))
      | None \<Rightarrow> Reservation_update (reservation_id r) CANCELED (db w))"
  proof -
    fix r assume fr: "Reservation_findByPk rid (db w) = Some r" and "status r \<noteq> CANCELED"
    then have "status r = CONFIRMED" by (cases "status r") simp_all
    from cancel_db_consistent [OF c fr this] show "consistent
     (case Event_findByPk (eventId r) (Reservation_update (reservation_id r) CANCELED (db w)) of
        Some event \<Rightarrow> Event_increment (event_id event) 1 (Reservation_update (reservation_id r) CANCELED (db w))
      | None \<Rightarrow> Reservation_update (reservation_id r) CANCELED (db w))" .
  qed
  then show ?thesis
    using c
    by (simp add: cancelReservation_def Let_def rollback_def commit_def db_clearEventCaches
        split: option.splits)
qed

lemma fresh_consistent: "fresh d \<Longrightarrow> consistent d"
  by (fastforce simp: fresh_def consistent_def schema_ok_def ledger_ok_def confirmedCount_def)

lemma step_consistent: "consistent (db w) \<Longrightarrow> consistent (db (step op w))"
  by (cases op)
    (simp_all add: createReservation_consistent cancelReservation_consistent updateEvent_consistent)

lemma run_consistent: "consistent (db w) \<Longrightarrow> consistent (db (run ops w))"
  unfolding run_def by (induction ops arbitrary: w) (simp_all add: step_consistent)

section \<open>The capacity ledger\<close>

text \<open>
  Claim C2. Start from a store holding only freshly created events and serve any
  sequence of reservation requests, cancellations and event updates (capacity changes
  included), one after the other. In the state reached, every event has
  \<open>0 \<le> availableSpots \<le> maxCapacity\<close>.
\<close>

theorem capacity_bounds_reachable:
  assumes "fresh (db w)"
  shows "\<forall>e \<in> set (events (db (run ops w))).
           0 \<le> availableSpots e \<and> availableSpots e \<le> maxCapacity e"
proof
  fix e assume e: "e \<in> set (events (db (run ops w)))"
  have "ledger_ok (db (run ops w))"
    using run_consistent [OF fresh_consistent [OF assms], of ops] by (simp add: consistent_def)
  from ledger_okD [OF this] e
  have "0 \<le> availableSpots e"
    and "availableSpots e = maxCapacity e - int (confirmedCount (event_id e) (db (run ops w)))"
    by blast+
  then show "0 \<le> availableSpots e \<and> availableSpots e \<le> maxCapacity e" by simp
qed

theorem capacity_bounds_reachable_witness:
  "fresh (db world0) \<and>
   map availableSpots (events (db (run scenario world0))) = [0] \<and>
   list_all (\<lambda>e. 0 \<le> availableSpots e \<and> availableSpots e \<le> maxCapacity e)
     (events (db (run scenario world0)))"
proof -
  have f: "fresh (db world0)" by (simp add: world0_def fresh_def launch_def)
  have r: "map availableSpots (events (db (run scenario world0))) = [0]" by code_simp
  from f r capacity_bounds_reachable [OF f, of scenario] show ?thesis
    by (simp only: list_all_iff)
qed

text \<open>
  Claim C3. In a store that satisfies the schema and whose counters agree with its
  rows, after every reservation request, cancellation or event update has completed
  (and so after any sequence of them), each event's \<open>availableSpots\<close> equals its
  \<open>maxCapacity\<close> minus the number of its confirmed reservations.
\<close>

theorem ledger_matches_confirmed:
  assumes "consistent (db w)"
  shows "\<forall>e \<in> set (events (db (run ops w))).
           availableSpots e = maxCapacity e - int (confirmedCount (event_id e) (db (run ops w)))"
proof -
  have "ledger_ok (db (run ops w))"
    using run_consistent [OF assms, of ops] by (simp add: consistent_def)
  from ledger_okD [OF this] show ?thesis by blast
qed

theorem ledger_matches_confirmed_witness:
  "consistent (db world0) \<and>
   confirmedCount 1 (db (run scenario world0)) = 2 \<and>
   list_all (\<lambda>e. availableSpots e =
        maxCapacity e - int (confirmedCount (event_id e) (db (run scenario world0))))
     (events (db (run scenario world0)))"
proof -
  have c: "consistent (db world0)"
    by (simp add: world0_def consistent_def schema_ok_def ledger_ok_def confirmedCount_def launch_def)
  have n: "confirmedCount 1 (db (run scenario world0)) = 2" by code_simp
  from c n ledger_matches_confirmed [OF c, of scenario] show ?thesis
    by (simp only: list_all_iff)
qed

section \<open>The reservation state machine\<close>

text \<open>
  Claim C5. For an event id within the INTEGER range, \<open>createReservation\<close> checks, in
  this order: the event exists (else "event not found"), its date is strictly after the
  current time (else "past event"), the requester is not an admin reserving a place at
  an event they created (else "own event"), the requester has no confirmed reservation
  for the event (else "already reserved"), and a place is available (else "no
  capacity"). The first check that fails decides the answer, whatever the later ones
  would say, and leaves the store, the cache and the console as they were. When all
  pass, the answer is 201 and one confirmed row is appended, provided the database
  takes the row (the requester has a row in \<open>users\<close> and the sequence is not
  exhausted); otherwise the answer is 500 and no row is added. So an admin reserving
  their own future event is refused as "own event" whatever the capacity and the
  reservations. An id outside the INTEGER range is answered 500, the store unchanged.
\<close>

theorem createReservation_checks_in_order:
  fixes u :: User and eid now :: int and w :: world
  defines "R \<equiv> createReservation (Some u) eid now w"
  shows
   "(\<not> int4 eid \<longrightarrow> snd R = StorageFailure \<and> db (fst R) = db w) \<and>
    (int4 eid \<longrightarrow>
     (Event_findByPk eid (db w) = None \<longrightarrow> R = (w, EventNotFound)) \<and>
     (\<forall>e. Event_findByPk eid (db w) = Some e \<longrightarrow>
        (eventDate e \<le> now \<longrightarrow> R = (w, EventInPast)) \<and>
        (now < eventDate e \<and> role u = admin \<and> creatorId e = user_id u \<longrightarrow>
           R = (w, SelfReservationForbidden)) \<and>
        (int4 (user_id u) \<and> now < eventDate e \<and> \<not> (role u = admin \<and> creatorId e = user_id u) \<longrightarrow>
           (hasActiveReservation eid (user_id u) (db w) \<longrightarrow> R = (w, AlreadyReserved)) \<and>
           (\<not> hasActiveReservation eid (user_id u) (db w) \<and> availableSpots e \<le> 0 \<longrightarrow>
              R = (w, NoCapacity)) \<and>
           (\<not> hasActiveReservation eid (user_id u) (db w) \<and> 0 < availableSpots e \<and>
            user_id u \<in> set (map user_id (users (db w))) \<and> int4 (reservations_seq (db w)) \<longrightarrow>
              (\<exists>r. snd R = ReservationCreated r) \<and>
              reservations (db (fst R)) = reservations (db w) @
                [\<lparr>reservation_id = reservations_seq (db w), eventId = eid,
                  userId = user_id u, status = CONFIRMED\<rparr>]) \<and>
           (\<not> hasActiveReservation eid (user_id u) (db w) \<and> 0 < availableSpots e \<and>
            \<not> (user_id u \<in> set (map user_id (users (db w))) \<and> int4 (reservations_seq (db w))) \<longrightarrow>
              snd R = StorageFailure \<and> reservations (db (fst R)) = reservations (db w) \<and>
              events (db (fst R)) = events (db w)))))"
  unfolding R_def
  by (auto simp: createReservation_defs Reservation_create_cases Let_def rollback_def commit_def
      internal_error_def hasActiveReservation_def StorageFailure_def
      EventNotFound_def EventInPast_def SelfReservationForbidden_def AlreadyReserved_def
      NoCapacity_def ReservationCreated_def db_clearEventCaches
      Event_decrement_def Event_update_def)

theorem createReservation_checks_in_order_witness:
  "snd (createReservation (Some userA) 2147483648 100 world0) = StorageFailure \<and>
   createReservation (Some userA) 9 100 world0 = (world0, EventNotFound) \<and>
   createReservation (Some userA) 1 1000 world0 = (world0, EventInPast) \<and>
   createReservation (Some admin7) 1 100 world0 = (world0, SelfReservationForbidden) \<and>
   createReservation (Some userA) 1 100 (run (take 1 scenario) world0)
     = (run (take 1 scenario) world0, AlreadyReserved) \<and>
   createReservation (Some userC) 1 100 (run (take 2 scenario) world0)
     = (run (take 2 scenario) world0, NoCapacity) \<and>
   snd (createReservation (Some userA) 1 100 world0)
     = ReservationCreated (Some \<lparr>reservation_id = 1, eventId = 1, userId = 1, status = CONFIRMED\<rparr>)"
proof -
  note t = createReservation_checks_in_order
  have big: "\<not> int4 2147483648" and i9: "int4 9" and i1: "int4 1"
    by (simp_all add: int4_def)
  have iA: "int4 (user_id userA)" and iC: "int4 (user_id userC)"
    by (simp_all add: int4_def userA_def userC_def)
  have e0: "Event_findByPk 9 (db world0) = None" by code_simp
  have e1: "Event_findByPk 1 (db world0) = Some launch" by code_simp
  have d1: "eventDate launch \<le> 1000" "100 < eventDate launch" by (simp_all add: launch_def)
  have a7: "role admin7 = admin \<and> creatorId launch = user_id admin7"
    by (simp add: admin7_def launch_def)
  have w1: "Event_findByPk 1 (db (run (take 1 scenario) world0)) = Some (launch\<lparr>availableSpots := 1\<rparr>)"
    by code_simp
  have w2: "Event_findByPk 1 (db (run (take 2 scenario) world0)) = Some (launch\<lparr>availableSpots := 0\<rparr>)"
    by code_simp
  have h1: "hasActiveReservation 1 (user_id userA) (db (run (take 1 scenario) world0))" by code_simp
  have h2: "\<not> hasActiveReservation 1 (user_id userC) (db (run (take 2 scenario) world0))" by code_simp
  have nA: "\<not> (role userA = admin \<and> creatorId (launch\<lparr>availableSpots := 1\<rparr>) = user_id userA)"
    by (simp add: userA_def)
  have nC: "\<not> (role userC = admin \<and> creatorId (launch\<lparr>availableSpots := 0\<rparr>) = user_id userC)"
    by (simp add: userC_def)
  have c0: "snd (createReservation (Some userA) 2147483648 100 world0) = StorageFailure"
    using t [where eid=2147483648 and w=world0 and u=userA and now=100] big by blast
  have c1: "createReservation (Some userA) 9 100 world0 = (world0, EventNotFound)"
    using t [where eid=9 and w=world0 and u=userA and now=100] e0 i9 by blast
  have c2: "createReservation (Some userA) 1 1000 world0 = (world0, EventInPast)"
    using t [where eid=1 and w=world0 and u=userA and now=1000] e1 d1 i1 by blast
  have c3: "createReservation (Some admin7) 1 100 world0 = (world0, SelfReservationForbidden)"
    using t [where eid=1 and w=world0 and u=admin7 and now=100] e1 d1 a7 i1 by blast
  have c4: "createReservation (Some userA) 1 100 (run (take 1 scenario) world0)
     = (run (take 1 scenario) world0, AlreadyReserved)"
    using t [where eid=1 and w="run (take 1 scenario) world0" and u=userA and now=100]
      w1 h1 nA d1 i1 iA
    by (simp add: launch_def)
  have c5: "createReservation (Some userC) 1 100 (run (take 2 scenario) world0)
     = (run (take 2 scenario) world0, NoCapacity)"
    using t [where eid=1 and w="run (take 2 scenario) world0" and u=userC and now=100]
      w2 h2 nC d1 i1 iC
    by (simp add: launch_def)
  have c6: "snd (createReservation (Some userA) 1 100 world0)
     = ReservationCreated (Some \<lparr>reservation_id = 1, eventId = 1, userId = 1, status = CONFIRMED\<rparr>)"
    by code_simp
  show ?thesis by (intro conjI c0 c1 c2 c3 c4 c5 c6)
qed

lemma find_pk_map:
  assumes "\<And>x. f (g x) = f x"
  shows "find (\<lambda>x. f x = k) (map (\<lambda>x. if f x = k then g x else x) xs)
           = map_option g (find (\<lambda>x. f x = k) xs)"
  using assms by (induction xs) auto

lemma map_no_pk:
  "find (\<lambda>x. f x = k) xs = None \<Longrightarrow> map (\<lambda>x. if f x = k then g x else x) xs = xs"
  by (induction xs) (auto split: if_splits)

text \<open>What a cancellation that passes the three checks does to the store.\<close>

lemma cancelReservation_success:
  fixes u :: User
  assumes fr: "Reservation_findByPk rid (db w) = Some r"
    and st: "status r = CONFIRMED"
    and au: "role u = admin \<or> user_id u = userId r"
  shows "snd (cancelReservation (Some u) rid w) = ReservationCanceled"
    and "reservations (db (fst (cancelReservation (Some u) rid w)))
          = map (\<lambda>x. if reservation_id x = rid then x\<lparr>status := CANCELED\<rparr> else x) (reservations (db w))"
    and "events (db (fst (cancelReservation (Some u) rid w)))
          = map (\<lambda>x. if event_id x = eventId r then x\<lparr>availableSpots := availableSpots x + 1\<rparr> else x)
              (events (db w))"
    and "reservations_seq (db (fst (cancelReservation (Some u) rid w))) = reservations_seq (db w)"
    and "fst (cancelReservation (Some u) rid w) =
           clearEventCaches (eventId r) (w\<lparr>db := db (fst (cancelReservation (Some u) rid w))\<rparr>)"
    and "users (db (fst (cancelReservation (Some u) rid w))) = users (db w)"
proof -
  from fr have rid: "reservation_id r = rid"
    using find_SomeD [of "\<lambda>x. reservation_id x = rid" "reservations (db w)" r]
    by (simp add: Reservation_findByPk_def)
  let ?t1 = "Reservation_update rid CANCELED (db w)"
  let ?t2 = "case Event_findByPk (eventId r) ?t1 of
               Some event \<Rightarrow> Event_increment (event_id event) 1 ?t1 | None \<Rightarrow> ?t1"
  have res: "cancelReservation (Some u) rid w =
      (clearEventCaches (eventId r) (w\<lparr>db := ?t2\<rparr>), ReservationCanceled)"
    using fr st au rid
    by (auto simp: cancelReservation_def Let_def commit_def ReservationCanceled_def)
  have t2: "reservations ?t2 = map (\<lambda>x. if reservation_id x = rid then x\<lparr>status := CANCELED\<rparr> else x) (reservations (db w))"
    "reservations_seq ?t2 = reservations_seq (db w)"
    by (simp_all add: Reservation_update_def Event_increment_def Event_update_def split: option.splits)
  have ev: "events ?t2 = map (\<lambda>x. if event_id x = eventId r then x\<lparr>availableSpots := availableSpots x + 1\<rparr> else x)
              (events (db w))"
  proof (cases "Event_findByPk (eventId r) (db w)")
    case None
    then show ?thesis
      using map_no_pk [of event_id "eventId r" "events (db w)"]
      by (simp add: Event_findByPk_Reservation_update) (simp add: Event_findByPk_def Reservation_update_def)
  next
    case (Some e)
    then have "event_id e = eventId r"
      using find_SomeD [of "\<lambda>x. event_id x = eventId r" "events (db w)" e]
      by (simp add: Event_findByPk_def)
    with Some have "?t2 = Event_increment (eventId r) 1 ?t1"
      by (simp add: Event_findByPk_Reservation_update)
    then show ?thesis
      by (simp add: Event_increment_def Event_update_def Reservation_update_def)
  qed
  have dbw: "db (fst (cancelReservation (Some u) rid w)) = ?t2"
    by (simp add: res db_clearEventCaches)
  show "snd (cancelReservation (Some u) rid w) = ReservationCanceled" by (simp add: res)
  show "reservations (db (fst (cancelReservation (Some u) rid w)))
          = map (\<lambda>x. if reservation_id x = rid then x\<lparr>status := CANCELED\<rparr> else x) (reservations (db w))"
    unfolding dbw by (simp only: t2)
  show "events (db (fst (cancelReservation (Some u) rid w)))
          = map (\<lambda>x. if event_id x = eventId r then x\<lparr>availableSpots := availableSpots x + 1\<rparr> else x)
              (events (db w))"
    unfolding dbw by (simp only: ev)
  show "reservations_seq (db (fst (cancelReservation (Some u) rid w))) = reservations_seq (db w)"
    unfolding dbw by (simp only: t2)
  show "fst (cancelReservation (Some u) rid w) =
           clearEventCaches (eventId r) (w\<lparr>db := db (fst (cancelReservation (Some u) rid w))\<rparr>)"
    by (simp add: res db_clearEventCaches)
  show "users (db (fst (cancelReservation (Some u) rid w))) = users (db w)"
    unfolding dbw
    by (simp add: Reservation_update_def Event_increment_def Event_update_def split: option.splits)
qed




text \<open>
  Claim C10. Cancelling a confirmed reservation whose event row is gone still succeeds:
  the reservation is stored as canceled, the answer is the success message, and no
  event row changes.
\<close>

theorem cancel_with_missing_event:
  fixes u :: User
  assumes fr: "Reservation_findByPk rid (db w) = Some r"
    and st: "status r = CONFIRMED"
    and au: "role u = admin \<or> user_id u = userId r"
    and missing: "Event_findByPk (eventId r) (db w) = None"
  shows "snd (cancelReservation (Some u) rid w) = ReservationCanceled \<and>
         Reservation_findByPk rid (db (fst (cancelReservation (Some u) rid w)))
           = Some (r\<lparr>status := CANCELED\<rparr>) \<and>
         events (db (fst (cancelReservation (Some u) rid w))) = events (db w)"
proof -
  note s = cancelReservation_success [OF fr st au]
  have r1: "Reservation_findByPk rid (db (fst (cancelReservation (Some u) rid w)))
           = Some (r\<lparr>status := CANCELED\<rparr>)"
    unfolding Reservation_findByPk_def s(2)
    using fr find_pk_map [of reservation_id "\<lambda>x. x\<lparr>status := CANCELED\<rparr>" rid "reservations (db w)"]
    by (simp add: Reservation_findByPk_def)
  have "events (db (fst (cancelReservation (Some u) rid w))) = events (db w)"
    unfolding s(3) using missing map_no_pk [of event_id "eventId r" "events (db w)"]
    by (simp add: Event_findByPk_def)
  with s(1) r1 show ?thesis by blast
qed

theorem cancel_with_missing_event_witness:
  "Event_findByPk 5 (db orphan_world) = None \<and>
   snd (cancelReservation (Some userA) 4 orphan_world) = ReservationCanceled \<and>
   Reservation_findByPk 4 (db (fst (cancelReservation (Some userA) 4 orphan_world)))
     = Some \<lparr>reservation_id = 4, eventId = 5, userId = 1, status = CANCELED\<rparr> \<and>
   events (db (fst (cancelReservation (Some userA) 4 orphan_world))) = [launch]"
proof -
  let ?r = "\<lparr>reservation_id = 4, eventId = 5, userId = 1, status = CONFIRMED\<rparr>"
  have fr: "Reservation_findByPk 4 (db orphan_world) = Some ?r" by code_simp
  have st: "status ?r = CONFIRMED" by simp
  have au: "role userA = admin \<or> user_id userA = userId ?r" by (simp add: userA_def)
  have missing: "Event_findByPk (eventId ?r) (db orphan_world) = None" by code_simp
  have ev: "events (db orphan_world) = [launch]" by (simp add: orphan_world_def)
  from missing have m5: "Event_findByPk 5 (db orphan_world) = None" by simp
  from cancel_with_missing_event [OF fr st au missing] m5 ev show ?thesis by simp
qed

text \<open>
  Claim C7. Take an existing event whose id is within the INTEGER range and whose
  counter lies between 0 and its \<open>maxCapacity\<close>, and a request by an admin or the
  event's creator that changes the capacity to \<open>n\<close>, an integer of at least 1 as the
  route's validator requires. The request is refused with the "below reserved" answer
  exactly when \<open>n\<close> is less than \<open>maxCapacity - availableSpots\<close>, and then nothing
  changes. Otherwise, for \<open>n\<close> within the INTEGER range, it succeeds: the event row
  has \<open>maxCapacity = n\<close> and \<open>availableSpots = n - (maxCapacity - availableSpots)\<close>,
  and the reservations are untouched. (For \<open>n\<close> beyond that range the database refuses
  the write: the answer is 500 and the store is unchanged.)
\<close>

theorem resize_floor:
  fixes u :: User and eid n :: int and w :: world
  defines "R \<equiv> updateEvent (Some u) eid (resize_request n) w"
  assumes ie: "int4 eid"
    and fe: "Event_findByPk eid (db w) = Some e"
    and au: "role u = admin \<or> user_id u = creatorId e"
    and pos: "1 \<le> n"
    and nonneg: "0 \<le> availableSpots e"
    and within: "availableSpots e \<le> maxCapacity e"
  shows "(snd R = CapacityBelowReservedFloor (maxCapacity e - availableSpots e))
            = (n < maxCapacity e - availableSpots e) \<and>
         (n < maxCapacity e - availableSpots e \<longrightarrow> fst R = w) \<and>
         (\<not> n < maxCapacity e - availableSpots e \<and> int4 n \<longrightarrow>
            snd R = EventUpdated (Some (e\<lparr>maxCapacity := n,
                       availableSpots := n - (maxCapacity e - availableSpots e)\<rparr>)) \<and>
            Event_findByPk eid (db (fst R))
              = Some (e\<lparr>maxCapacity := n,
                       availableSpots := n - (maxCapacity e - availableSpots e)\<rparr>) \<and>
            reservations (db (fst R)) = reservations (db w)) \<and>
         (\<not> n < maxCapacity e - availableSpots e \<and> \<not> int4 n \<and> int4 (maxCapacity e) \<longrightarrow>
            snd R = StorageFailure \<and> db (fst R) = db w)"
proof -
  let ?res = "maxCapacity e - availableSpots e"
  let ?body = "resize_request n"
  let ?e' = "e\<lparr>maxCapacity := n, availableSpots := n - ?res\<rparr>"
  from fe have eid: "event_id e = eid"
    using find_SomeD [of "\<lambda>x. event_id x = eid" "events (db w)" e]
    by (simp add: Event_findByPk_def)
  have notauth: "\<not> (role u \<noteq> admin \<and> user_id u \<noteq> creatorId e)" using au by blast
  have rq: "req_maxCapacity ?body = Some n" by (simp add: resize_request_def)
  have ud: "\<And>m x. updateData (resize_request m) x = x"
    by (simp add: updateData_def resize_request_def)
  have refused: "update_refused ?body e
      = (n \<noteq> maxCapacity e \<and> (\<not> int4 n \<or> \<not> int4 (n - ?res)))"
    using pos by (auto simp: update_refused_def truthy_changed_def resize_request_def)
  show ?thesis
  proof (cases "n < ?res")
    case True
    then have "n \<noteq> maxCapacity e" using nonneg by simp
    then have tc: "truthy_changed (req_maxCapacity ?body) e" using rq pos
      by (simp add: truthy_changed_def)
    have "R = (w, CapacityBelowReservedFloor ?res)"
      unfolding R_def using fe notauth tc True rq ie
      by (simp add: updateEvent_def Let_def CapacityBelowReservedFloor_def)
    with True show ?thesis by simp
  next
    case False
    have nofloor: "snd R \<noteq> CapacityBelowReservedFloor ?res"
      unfolding R_def using fe notauth False rq ie
      by (simp add: updateEvent_def Let_def CapacityBelowReservedFloor_def internal_error_def)
    have ok: "int4 n \<longrightarrow>
            snd R = EventUpdated (Some ?e') \<and>
            Event_findByPk eid (db (fst R)) = Some ?e' \<and>
            reservations (db (fst R)) = reservations (db w)"
    proof
      assume i: "int4 n"
      have "int4 (n - ?res)" using i False nonneg within by (simp add: int4_def)
      with i have nr: "\<not> update_refused ?body e" by (simp add: refused)
      let ?upd = "if truthy_changed (req_maxCapacity ?body) e
                  then (\<lambda>x. (updateData ?body x)\<lparr>maxCapacity := n, availableSpots := n - ?res\<rparr>)
                  else updateData ?body"
      let ?d' = "Event_update eid ?upd (db w)"
      have R: "R = (clearEventCaches eid (w\<lparr>db := ?d'\<rparr>), EventUpdated (Event_findByPk eid ?d'))"
        unfolding R_def using fe notauth False rq eid ie nr
        by (simp add: updateEvent_def Let_def EventUpdated_def)
      have keep: "\<And>x. event_id (?upd x) = event_id x"
        by (simp add: updateData_keeps)
      have found: "Event_findByPk eid ?d' = Some (?upd e)"
        unfolding Event_findByPk_def Event_update_def
        using fe find_pk_map [of event_id ?upd eid "events (db w)", OF keep]
        by (simp add: Event_findByPk_def)
      have ue: "?upd e = ?e'"
        using rq pos by (auto simp: truthy_changed_def ud)
      have rs: "reservations ?d' = reservations (db w)" by (simp add: Event_update_def)
      have "db (fst R) = ?d'" by (simp add: R db_clearEventCaches)
      with found ue rs R
      show "snd R = EventUpdated (Some ?e') \<and>
            Event_findByPk eid (db (fst R)) = Some ?e' \<and>
            reservations (db (fst R)) = reservations (db w)"
        by simp
    qed
    have bad: "\<not> int4 n \<and> int4 (maxCapacity e) \<longrightarrow> snd R = StorageFailure \<and> db (fst R) = db w"
    proof
      assume h: "\<not> int4 n \<and> int4 (maxCapacity e)"
      then have "n \<noteq> maxCapacity e" by auto
      with h have "update_refused ?body e" by (simp add: refused)
      then have "R = internal_error ''Update event error:'' w"
        unfolding R_def using fe notauth False rq ie
        by (auto simp: updateEvent_def Let_def)
      then show "snd R = StorageFailure \<and> db (fst R) = db w"
        by (simp add: internal_error_def StorageFailure_def)
    qed
    from False nofloor ok bad show ?thesis by simp
  qed
qed

theorem resize_floor_witness:
  "Event_findByPk 1 (db (run (take 2 scenario) world0)) = Some (launch\<lparr>availableSpots := 0\<rparr>) \<and>
   updateEvent (Some admin7) 1 (resize_request 1) (run (take 2 scenario) world0)
     = (run (take 2 scenario) world0, CapacityBelowReservedFloor 2) \<and>
   snd (updateEvent (Some admin7) 1 (resize_request 5) (run (take 2 scenario) world0))
     = EventUpdated (Some (launch\<lparr>maxCapacity := 5, availableSpots := 3\<rparr>)) \<and>
   Event_findByPk 1 (db (fst (updateEvent (Some admin7) 1 (resize_request 5) (run (take 2 scenario) world0))))
     = Some (launch\<lparr>maxCapacity := 5, availableSpots := 3\<rparr>) \<and>
   snd (updateEvent (Some admin7) 1 (resize_request 2147483648) (run (take 2 scenario) world0))
     = StorageFailure \<and>
   db (fst (updateEvent (Some admin7) 1 (resize_request 2147483648) (run (take 2 scenario) world0)))
     = db (run (take 2 scenario) world0)"
proof -
  let ?w = "run (take 2 scenario) world0"
  let ?e = "launch\<lparr>availableSpots := 0\<rparr>"
  have ie: "int4 1" by (simp add: int4_def)
  have fe: "Event_findByPk 1 (db ?w) = Some ?e" by code_simp
  have au: "role admin7 = admin \<or> user_id admin7 = creatorId ?e" by (simp add: admin7_def)
  have nn: "0 \<le> availableSpots ?e" by simp
  have wi: "availableSpots ?e \<le> maxCapacity ?e" by (simp add: launch_def)
  have res: "maxCapacity ?e - availableSpots ?e = 2" by (simp add: launch_def)
  have i5: "int4 5" and big: "\<not> int4 2147483648" and im: "int4 (maxCapacity ?e)"
    by (simp_all add: int4_def launch_def)
  note t = resize_floor [OF ie fe au _ nn wi]
  from t [of 1] res
  have c1: "updateEvent (Some admin7) 1 (resize_request 1) ?w = (?w, CapacityBelowReservedFloor 2)"
    by (simp add: prod_eq_iff)
  from t [of 5] res i5
  have c2: "snd (updateEvent (Some admin7) 1 (resize_request 5) ?w)
       = EventUpdated (Some (launch\<lparr>maxCapacity := 5, availableSpots := 3\<rparr>))"
    and c3: "Event_findByPk 1 (db (fst (updateEvent (Some admin7) 1 (resize_request 5) ?w)))
       = Some (launch\<lparr>maxCapacity := 5, availableSpots := 3\<rparr>)"
    by (simp_all add: launch_def)
  from t [of 2147483648] res big im
  have c4: "snd (updateEvent (Some admin7) 1 (resize_request 2147483648) ?w) = StorageFailure"
    and c5: "db (fst (updateEvent (Some admin7) 1 (resize_request 2147483648) ?w)) = db ?w"
    by simp_all
  show ?thesis by (intro conjI fe c1 c2 c3 c4 c5)
qed







section \<open>Cache invalidation\<close>

lemma cacheUtils_del_effect:
  "\<exists>b. (faults (redis w) = [] \<longrightarrow> \<not> b) \<and>
       trace (redis (cacheUtils_del key w)) = trace (redis w) @ [(DEL [key], b)] \<and>
       console (cacheUtils_del key w) = console w @ (if b then [Error ''Cache delete error:''] else []) \<and>
       faults (redis (cacheUtils_del key w)) = tl (faults (redis w)) \<and>
       store (redis (cacheUtils_del key w))
         = (if b then store (redis w) else filter (\<lambda>kv. fst kv \<noteq> key) (store (redis w)))"
  by (rule exI [of _ "case faults (redis w) of [] \<Rightarrow> False | f # _ \<Rightarrow> f"])
     (simp add: cacheUtils_del_def redis_del_def redis_call_def Let_def)


lemma filter_matching_keys:
  "filter (\<lambda>kv. fst kv \<notin> set (filter P (map fst xs))) xs = filter (\<lambda>kv. \<not> P (fst kv)) xs"
  by (rule filter_cong) auto

lemma filter_matching_keys_simped:
  "filter (\<lambda>kv. fst kv \<in> fst ` set xs \<longrightarrow> \<not> P (fst kv)) xs = filter (\<lambda>kv. \<not> P (fst kv)) xs"
  by (rule filter_cong) auto

lemma filter_comp_Nil: "(filter (P \<circ> f) xs = []) = (filter P (map f xs) = [])"
  by (simp add: filter_map)

lemma filter_no_matching_keys:
  "filter P (map fst xs) = [] \<Longrightarrow> filter (\<lambda>kv. \<not> P (fst kv)) xs = xs"
  by (induction xs) (auto split: if_splits)

lemma cacheUtils_delPattern_effect:
  "\<exists>b T L. (faults (redis w) = [] \<longrightarrow> \<not> b \<and> filter snd T = []) \<and>
       trace (redis (cacheUtils_delPattern p w)) = trace (redis w) @ (KEYS p, b) # T \<and>
       console (cacheUtils_delPattern p w) = console w @ L \<and>
       length (filter is_Error_line L) = length (filter snd ((KEYS p, b) # T)) \<and>
       (faults (redis w) = [] \<longrightarrow>
          store (redis (cacheUtils_delPattern p w))
            = filter (\<lambda>kv. \<not> glob_match p (fst kv)) (store (redis w)))"
proof -
  let ?b = "case faults (redis w) of [] \<Rightarrow> False | f # _ \<Rightarrow> f"
  let ?b2 = "case tl (faults (redis w)) of [] \<Rightarrow> False | f # _ \<Rightarrow> f"
  let ?keys = "filter (glob_match p) (map fst (store (redis w)))"
  let ?T = "if ?b \<or> ?keys = [] then [] else [(DEL ?keys, ?b2)]"
  let ?L = "if ?b then [Error ''Cache pattern delete error:'']
            else if ?keys = [] then []
            else if ?b2 then [Error ''Cache pattern delete error:'']
            else [Log (''Deleted '' @ show_nat (length ?keys) @ '' cache keys matching pattern: '' @ p)]"
  have tr: "trace (redis (cacheUtils_delPattern p w)) = trace (redis w) @ (KEYS p, ?b) # ?T"
    by (simp add: cacheUtils_delPattern_def redis_keys_def redis_del_def redis_call_def Let_def
        filter_comp_Nil)
  have co: "console (cacheUtils_delPattern p w) = console w @ ?L"
    by (simp add: cacheUtils_delPattern_def redis_keys_def redis_del_def redis_call_def Let_def
        filter_comp_Nil)
  have le: "length (filter is_Error_line ?L) = length (filter snd ((KEYS p, ?b) # ?T))"
    by simp
  have nf: "faults (redis w) = [] \<longrightarrow> \<not> ?b \<and> filter snd ?T = []"
    by simp
  have st: "faults (redis w) = [] \<longrightarrow>
          store (redis (cacheUtils_delPattern p w))
            = filter (\<lambda>kv. \<not> glob_match p (fst kv)) (store (redis w))"
    by (simp add: cacheUtils_delPattern_def redis_keys_def redis_del_def redis_call_def Let_def
        filter_matching_keys filter_matching_keys_simped filter_no_matching_keys filter_comp_Nil)
  from nf tr co le st show ?thesis by blast
qed


lemma clearEventCaches_invalidation:
  assumes r0: "redis w0 = redis w" and c0: "console w0 = console w"
  shows "invalidation_done eid w0 (clearEventCaches eid w)"
proof -
  let ?w1 = "cacheUtils_del POPULAR_EVENTS w"
  let ?w2 = "cacheUtils_del (EVENT_DETAILS eid) ?w1"
  let ?w3 = "cacheUtils_delPattern ''events:page:*'' ?w2"
  let ?w' = "clearEventCaches eid w"
  obtain b1 where nf1: "faults (redis w) = [] \<longrightarrow> \<not> b1"
    and t1: "trace (redis ?w1) = trace (redis w) @ [(DEL [POPULAR_EVENTS], b1)]"
    and l1: "console ?w1 = console w @ (if b1 then [Error ''Cache delete error:''] else [])"
    and f1: "faults (redis ?w1) = tl (faults (redis w))"
    and s1: "store (redis ?w1) = (if b1 then store (redis w)
                else filter (\<lambda>kv. fst kv \<noteq> POPULAR_EVENTS) (store (redis w)))"
    using cacheUtils_del_effect [of w POPULAR_EVENTS] by blast
  obtain b2 where nf2: "faults (redis ?w1) = [] \<longrightarrow> \<not> b2"
    and t2: "trace (redis ?w2) = trace (redis ?w1) @ [(DEL [EVENT_DETAILS eid], b2)]"
    and l2: "console ?w2 = console ?w1 @ (if b2 then [Error ''Cache delete error:''] else [])"
    and f2: "faults (redis ?w2) = tl (faults (redis ?w1))"
    and s2: "store (redis ?w2) = (if b2 then store (redis ?w1)
                else filter (\<lambda>kv. fst kv \<noteq> EVENT_DETAILS eid) (store (redis ?w1)))"
    using cacheUtils_del_effect [of ?w1 "EVENT_DETAILS eid"] by blast
  obtain b3 T L where nf3: "faults (redis ?w2) = [] \<longrightarrow> \<not> b3 \<and> filter snd T = []"
    and t3: "trace (redis ?w3) = trace (redis ?w2) @ (KEYS ''events:page:*'', b3) # T"
    and l3: "console ?w3 = console ?w2 @ L"
    and e3: "length (filter is_Error_line L) = length (filter snd ((KEYS ''events:page:*'', b3) # T))"
    and s3: "faults (redis ?w2) = [] \<longrightarrow> store (redis ?w3)
               = filter (\<lambda>kv. \<not> glob_match ''events:page:*'' (fst kv)) (store (redis ?w2))"
    using cacheUtils_delPattern_effect [of ?w2 "''events:page:*''"] by blast
  have red: "redis ?w' = redis ?w3"
    and con: "console ?w' = console ?w3 @ [Log (''Cleared event caches for event '' @ show_int eid)]"
    by (simp_all add: clearEventCaches_def Let_def)
  have sent: "sent_between w0 ?w' =
      [(DEL [POPULAR_EVENTS], b1), (DEL [EVENT_DETAILS eid], b2), (KEYS ''events:page:*'', b3)] @ T"
    unfolding sent_between_def r0 red t3 t2 t1 by simp
  have logged: "logged_between w0 ?w' =
      (if b1 then [Error ''Cache delete error:''] else []) @
      (if b2 then [Error ''Cache delete error:''] else []) @ L @
      [Log (''Cleared event caches for event '' @ show_int eid)]"
    unfolding logged_between_def c0 con l3 l2 l1 by simp
  have p1: "prefix (invalidation_signals eid) (map fst (sent_between w0 ?w'))"
    unfolding sent by (simp add: invalidation_signals_def)
  have p2: "length (filter is_Error_line (logged_between w0 ?w')) = length (filter snd (sent_between w0 ?w'))"
    unfolding sent logged using e3 by simp
  have p3: "faults (redis w0) = [] \<longrightarrow>
        (\<forall>k \<in> set (map fst (store (redis ?w'))).
           k \<noteq> POPULAR_EVENTS \<and> k \<noteq> EVENT_DETAILS eid \<and> \<not> glob_match ''events:page:*'' k)"
  proof
    assume "faults (redis w0) = []"
    then have z: "faults (redis w) = []" by (simp add: r0)
    then have z1: "faults (redis ?w1) = []" and nb1: "\<not> b1" using f1 nf1 by simp_all
    then have z2: "faults (redis ?w2) = []" and nb2: "\<not> b2" using f2 nf2 by simp_all
    have "store (redis ?w') = filter (\<lambda>kv. \<not> glob_match ''events:page:*'' (fst kv))
        (filter (\<lambda>kv. fst kv \<noteq> EVENT_DETAILS eid)
          (filter (\<lambda>kv. fst kv \<noteq> POPULAR_EVENTS) (store (redis w))))"
      using s3 z2 s2 nb2 s1 nb1 by (simp only: red if_False simp_thms)
    then show "\<forall>k \<in> set (map fst (store (redis ?w'))).
           k \<noteq> POPULAR_EVENTS \<and> k \<noteq> EVENT_DETAILS eid \<and> \<not> glob_match ''events:page:*'' k"
      by (simp del: glob_match.simps)
  qed
  show ?thesis unfolding invalidation_done_def by (intro conjI p1 p2 p3)
qed


lemma glob_star: "glob_match ''*'' s"
  by (induction s) simp_all

lemma listing_keys_match: "glob_match ''events:page:*'' (EVENT_LIST page limit @ rest)"
  by (simp add: EVENT_LIST_def glob_star)

lemma createReservation_clears:
  assumes "snd (createReservation uo eid now w) = ReservationCreated r"
  shows "\<exists>d'. fst (createReservation uo eid now w) = clearEventCaches eid (w\<lparr>db := d'\<rparr>)"
  using assms
  by (auto simp: createReservation_defs Reservation_create_cases Let_def rollback_def commit_def
      internal_error_def ReservationCreated_def
      split: option.splits if_splits)

lemma cancelReservation_clears:
  assumes "snd (cancelReservation uo rid w) = ReservationCanceled"
  shows "\<exists>x d'. Reservation_findByPk rid (db w) = Some x \<and>
           fst (cancelReservation uo rid w) = clearEventCaches (eventId x) (w\<lparr>db := d'\<rparr>)"
  using assms
  by (auto simp: cancelReservation_def Let_def rollback_def commit_def ReservationCanceled_def
      split: option.splits if_splits)

lemma updateEvent_clears:
  assumes "snd (updateEvent uo eid body w) = EventUpdated e'"
  shows "\<exists>d'. fst (updateEvent uo eid body w) = clearEventCaches eid (w\<lparr>db := d'\<rparr>)"
proof (cases "Event_findByPk eid (db w)")
  case None
  with assms show ?thesis
    by (simp add: updateEvent_def EventUpdated_def internal_error_def split: if_splits)
next
  case (Some e)
  then have "event_id e = eid"
    using find_SomeD [of "\<lambda>x. event_id x = eid" "events (db w)" e]
    by (simp add: Event_findByPk_def)
  with Some assms show ?thesis
    by (auto simp: updateEvent_def Let_def EventUpdated_def internal_error_def split: if_splits)
qed

lemma handlers_ignore_cache:
  "db (fst (createReservation uo eid now (w\<lparr>redis := rc, console := cl\<rparr>)))
     = db (fst (createReservation uo eid now w))"
  "snd (createReservation uo eid now (w\<lparr>redis := rc, console := cl\<rparr>))
     = snd (createReservation uo eid now w)"
  "db (fst (cancelReservation uo rid (w\<lparr>redis := rc, console := cl\<rparr>)))
     = db (fst (cancelReservation uo rid w))"
  "snd (cancelReservation uo rid (w\<lparr>redis := rc, console := cl\<rparr>))
     = snd (cancelReservation uo rid w)"
  "db (fst (updateEvent uo eid body (w\<lparr>redis := rc, console := cl\<rparr>)))
     = db (fst (updateEvent uo eid body w))"
  "snd (updateEvent uo eid body (w\<lparr>redis := rc, console := cl\<rparr>))
     = snd (updateEvent uo eid body w)"
  by (simp_all add: createReservation_defs Reservation_create_cases cancelReservation_def
      updateEvent_def Let_def rollback_def commit_def internal_error_def db_clearEventCaches
      split: option.splits)


text \<open>
  Claim C9. Whenever \<open>createReservation\<close>, \<open>cancelReservation\<close> or \<open>updateEvent\<close>
  (a capacity change included) answers with success, its last step has sent to the
  cache, first and in this order, the deletion of the ranking key, the deletion of the
  event's detail key and the search for all listing keys (every key that the listing
  handler writes matches the pattern searched for); each command that threw has left
  one error line on the console; and when no command throws, none of these keys is
  left. Whatever the cache client does, the stored data and the answer are the same as
  with any other cache client and console: a failed invalidation neither changes the
  answer nor undoes the committed writes.
\<close>

theorem invalidation_after_success:
  "(snd (createReservation uo eid now w) = ReservationCreated r \<longrightarrow>
      invalidation_done eid w (fst (createReservation uo eid now w))) \<and>
   (snd (cancelReservation uo rid w) = ReservationCanceled \<longrightarrow>
      (\<exists>x. Reservation_findByPk rid (db w) = Some x \<and>
           invalidation_done (eventId x) w (fst (cancelReservation uo rid w)))) \<and>
   (snd (updateEvent uo eid body w) = EventUpdated e' \<longrightarrow>
      invalidation_done eid w (fst (updateEvent uo eid body w))) \<and>
   db (fst (createReservation uo eid now (w\<lparr>redis := rc, console := cl\<rparr>)))
     = db (fst (createReservation uo eid now w)) \<and>
   snd (createReservation uo eid now (w\<lparr>redis := rc, console := cl\<rparr>))
     = snd (createReservation uo eid now w) \<and>
   db (fst (cancelReservation uo rid (w\<lparr>redis := rc, console := cl\<rparr>)))
     = db (fst (cancelReservation uo rid w)) \<and>
   snd (cancelReservation uo rid (w\<lparr>redis := rc, console := cl\<rparr>))
     = snd (cancelReservation uo rid w) \<and>
   db (fst (updateEvent uo eid body (w\<lparr>redis := rc, console := cl\<rparr>)))
     = db (fst (updateEvent uo eid body w)) \<and>
   snd (updateEvent uo eid body (w\<lparr>redis := rc, console := cl\<rparr>))
     = snd (updateEvent uo eid body w) \<and>
   glob_match ''events:page:*'' (EVENT_LIST page limit @ rest)"
proof -
  have a: "snd (createReservation uo eid now w) = ReservationCreated r \<longrightarrow>
      invalidation_done eid w (fst (createReservation uo eid now w))"
  proof
    assume "snd (createReservation uo eid now w) = ReservationCreated r"
    from createReservation_clears [OF this] obtain d'
      where "fst (createReservation uo eid now w) = clearEventCaches eid (w\<lparr>db := d'\<rparr>)" ..
    then show "invalidation_done eid w (fst (createReservation uo eid now w))"
      by (simp add: clearEventCaches_invalidation)
  qed
  have b: "snd (cancelReservation uo rid w) = ReservationCanceled \<longrightarrow>
      (\<exists>x. Reservation_findByPk rid (db w) = Some x \<and>
           invalidation_done (eventId x) w (fst (cancelReservation uo rid w)))"
  proof
    assume "snd (cancelReservation uo rid w) = ReservationCanceled"
    from cancelReservation_clears [OF this] obtain x d'
      where "Reservation_findByPk rid (db w) = Some x"
        and "fst (cancelReservation uo rid w) = clearEventCaches (eventId x) (w\<lparr>db := d'\<rparr>)"
      by blast
    then show "\<exists>x. Reservation_findByPk rid (db w) = Some x \<and>
           invalidation_done (eventId x) w (fst (cancelReservation uo rid w))"
      by (simp add: clearEventCaches_invalidation)
  qed
  have c: "snd (updateEvent uo eid body w) = EventUpdated e' \<longrightarrow>
      invalidation_done eid w (fst (updateEvent uo eid body w))"
  proof
    assume "snd (updateEvent uo eid body w) = EventUpdated e'"
    from updateEvent_clears [OF this] obtain d'
      where "fst (updateEvent uo eid body w) = clearEventCaches eid (w\<lparr>db := d'\<rparr>)" ..
    then show "invalidation_done eid w (fst (updateEvent uo eid body w))"
      by (simp add: clearEventCaches_invalidation)
  qed
  note d = handlers_ignore_cache and e = listing_keys_match [of page limit rest]
  show ?thesis by (intro conjI a b c d e)
qed

theorem invalidation_after_success_witness:
  "snd (createReservation (Some userA) 1 100 flaky_world)
     = ReservationCreated (Some \<lparr>reservation_id = 1, eventId = 1, userId = 1, status = CONFIRMED\<rparr>) \<and>
   invalidation_done 1 flaky_world (fst (createReservation (Some userA) 1 100 flaky_world)) \<and>
   sent_between flaky_world (fst (createReservation (Some userA) 1 100 flaky_world))
     = [(DEL [''popular_events''], True), (DEL [''event:1''], False), (KEYS ''events:page:*'', True)] \<and>
   logged_between flaky_world (fst (createReservation (Some userA) 1 100 flaky_world))
     = [Error ''Cache delete error:'', Error ''Cache pattern delete error:'',
        Log ''Cleared event caches for event 1''] \<and>
   db (fst (createReservation (Some userA) 1 100 flaky_world))
     = db (fst (createReservation (Some userA) 1 100 cached_world)) \<and>
   map fst (store (redis (fst (createReservation (Some userA) 1 100 cached_world)))) = [''user:1''] \<and>
   snd (cancelReservation (Some userA) 1 (fst (createReservation (Some userA) 1 100 flaky_world)))
     = ReservationCanceled \<and>
   invalidation_done 1 (fst (createReservation (Some userA) 1 100 flaky_world))
     (fst (cancelReservation (Some userA) 1 (fst (createReservation (Some userA) 1 100 flaky_world)))) \<and>
   snd (updateEvent (Some admin7) 1 (resize_request 5) flaky_world)
     = EventUpdated (Some (launch\<lparr>maxCapacity := 5, availableSpots := 5\<rparr>)) \<and>
   invalidation_done 1 flaky_world (fst (updateEvent (Some admin7) 1 (resize_request 5) flaky_world))"
proof -
  let ?w1 = "fst (createReservation (Some userA) 1 100 flaky_world)"
  let ?r = "\<lparr>reservation_id = 1, eventId = 1, userId = 1, status = CONFIRMED\<rparr>"
  note t = invalidation_after_success
  have s1: "snd (createReservation (Some userA) 1 100 flaky_world) = ReservationCreated (Some ?r)"
    by code_simp
  from t [where uo="Some userA" and eid=1 and now=100 and w=flaky_world and r="Some ?r"] s1
  have i1: "invalidation_done 1 flaky_world ?w1" by blast
  have se: "sent_between flaky_world ?w1
     = [(DEL [''popular_events''], True), (DEL [''event:1''], False), (KEYS ''events:page:*'', True)]"
    by code_simp
  have lo: "logged_between flaky_world ?w1
     = [Error ''Cache delete error:'', Error ''Cache pattern delete error:'',
        Log ''Cleared event caches for event 1'']"
    by code_simp
  have fl: "flaky_world = cached_world\<lparr>redis := redis flaky_world, console := console flaky_world\<rparr>"
    by (simp add: flaky_world_def)
  from t [where uo="Some userA" and eid=1 and now=100 and w=cached_world
            and rc="redis flaky_world" and cl="console flaky_world"] fl
  have d1: "db ?w1 = db (fst (createReservation (Some userA) 1 100 cached_world))" by simp
  have st: "map fst (store (redis (fst (createReservation (Some userA) 1 100 cached_world)))) = [''user:1'']"
    by code_simp
  have s2: "snd (cancelReservation (Some userA) 1 ?w1) = ReservationCanceled" by code_simp
  have f2: "Reservation_findByPk 1 (db ?w1) = Some ?r" by code_simp
  from t [where uo="Some userA" and rid=1 and w="?w1"] s2 f2
  have i2: "invalidation_done 1 ?w1 (fst (cancelReservation (Some userA) 1 ?w1))" by auto
  have s3: "snd (updateEvent (Some admin7) 1 (resize_request 5) flaky_world)
     = EventUpdated (Some (launch\<lparr>maxCapacity := 5, availableSpots := 5\<rparr>))" by code_simp
  from t [where uo="Some admin7" and eid=1 and w=flaky_world and body="resize_request 5"
            and e'="Some (launch\<lparr>maxCapacity := 5, availableSpots := 5\<rparr>)"] s3
  have i3: "invalidation_done 1 flaky_world (fst (updateEvent (Some admin7) 1 (resize_request 5) flaky_world))"
    by blast
  show ?thesis by (intro conjI s1 i1 se lo d1 st s2 i2 s3 i3)
qed

section \<open>The increment of a cancellation\<close>

text \<open>
  Claim C4, at a store whose counter already shows every place free: the handler
  raises \<open>availableSpots\<close> to 3 while \<open>maxCapacity\<close> is 2. The model's own
  \<open>cancelSpot\<close>, which the handler does not call, leaves the same event at 2.
\<close>

theorem cancelReservation_exceeds_maxCapacity:
  "snd (cancelReservation (Some userA) 1 full_world) = ReservationCanceled \<and>
   map (\<lambda>e. (availableSpots e, maxCapacity e)) (events (db full_world)) = [(2, 2)] \<and>
   map (\<lambda>e. (availableSpots e, maxCapacity e))
     (events (db (fst (cancelReservation (Some userA) 1 full_world)))) = [(3, 2)] \<and>
   availableSpots (cancelSpot launch) = 2"
  by code_simp

section \<open>Two requests for the last place\<close>

text \<open>
  Claim C1, at the store the scenario reaches after its first step: one event with two
  places, one of them taken by user A, one left. Users B and C ask for it. Served one
  after the other, B gets the place and C is refused for lack of capacity. Served at
  once, in the order checks of B, checks of C, writes of B, writes of C, both are
  answered 201: each handler tested the \<open>availableSpots\<close> it had read before the other
  wrote, nothing having locked the row. The event ends with \<open>availableSpots = - 1\<close> and
  three confirmed reservations for two places.
\<close>

theorem concurrent_creates_oversell:
  "map (\<lambda>e. (availableSpots e, maxCapacity e)) (events (db (run (take 1 scenario) world0))) = [(1, 2)] \<and>
   snd (createReservation_serial (Some userB) (Some userC) 1 100 (run (take 1 scenario) world0))
     = (ReservationCreated (Some \<lparr>reservation_id = 2, eventId = 1, userId = 2, status = CONFIRMED\<rparr>),
        NoCapacity) \<and>
   snd (createReservation_interleaved (Some userB) (Some userC) 1 100 (run (take 1 scenario) world0))
     = (ReservationCreated (Some \<lparr>reservation_id = 2, eventId = 1, userId = 2, status = CONFIRMED\<rparr>),
        ReservationCreated (Some \<lparr>reservation_id = 3, eventId = 1, userId = 3, status = CONFIRMED\<rparr>)) \<and>
   map (\<lambda>e. (availableSpots e, maxCapacity e))
     (events (db (fst (createReservation_interleaved (Some userB) (Some userC) 1 100
        (run (take 1 scenario) world0))))) = [(- 1, 2)] \<and>
   confirmedCount 1
     (db (fst (createReservation_interleaved (Some userB) (Some userC) 1 100
        (run (take 1 scenario) world0)))) = 3"
  by code_simp

end
